theory Spec2Isabelle
  imports Main "HOL-Library.Sublist"
begin

section \<open>Strings as the program sees them\<close>

text \<open>
  The program is a React application written in TypeScript. Its strings are modelled as
  \<^typ>\<open>string\<close>, one \<^typ>\<open>char\<close> per code unit, so the model covers the code units
  \<open>0x00\<close> to \<open>0xFF\<close>. In that range the white space of \<^verbatim>\<open>String.prototype.trim\<close> and
  of the regular-expression class \<^verbatim>\<open>\s\<close> is tab, line feed, vertical tab, form feed,
  carriage return, space and the no-break space \<open>0xA0\<close>.
\<close>

definition isWhiteSpace :: "char \<Rightarrow> bool" where
  "isWhiteSpace c \<longleftrightarrow>
     c = CHR 0x09 \<or> c = CHR 0x0A \<or> c = CHR 0x0B \<or> c = CHR 0x0C \<or> c = CHR 0x0D \<or>
     c = CHR 0x20 \<or> c = CHR 0xA0"

text \<open>\<^verbatim>\<open>s.trim()\<close>: white space is removed at both ends.\<close>

definition trim :: "string \<Rightarrow> string" where
  "trim s = rev (dropWhile isWhiteSpace (rev (dropWhile isWhiteSpace s)))"

text \<open>
  \<^verbatim>\<open>s.replace(/\s+/g, rep)\<close>: scanning from the left, every maximal run of white space is
  replaced by \<open>rep\<close>.
\<close>

function replace_ws_runs :: "string \<Rightarrow> string \<Rightarrow> string" where
  "replace_ws_runs rep [] = []"
| "replace_ws_runs rep (c # cs) =
     (if isWhiteSpace c then rep @ replace_ws_runs rep (dropWhile isWhiteSpace cs)
      else c # replace_ws_runs rep cs)"
  by pat_completeness auto
termination
  by (relation "measure (\<lambda>(rep, s). length s)")
     (auto simp: le_imp_less_Suc length_dropWhile_le)

text \<open>The character class \<^verbatim>\<open>[a-zA-Z0-9-_]\<close>.\<close>

definition isNameChar :: "char \<Rightarrow> bool" where
  "isNameChar c \<longleftrightarrow>
     (let n = (of_char c :: nat) in
      (97 \<le> n \<and> n \<le> 122) \<or> (65 \<le> n \<and> n \<le> 90) \<or> (48 \<le> n \<and> n \<le> 57) \<or>
      c = CHR ''-'' \<or> c = CHR ''_'')"

text \<open>\<^verbatim>\<open>parts.join(sep)\<close>.\<close>

fun join :: "string \<Rightarrow> string list \<Rightarrow> string" where
  "join sep [] = []"
| "join sep [x] = x"
| "join sep (x # y # ys) = x @ sep @ join sep (y # ys)"

text \<open>\<^verbatim>\<open>s.substring(start, end)\<close> on indices that are natural numbers: both are clamped to
  the length, and swapped when \<open>start\<close> is the larger one.\<close>

definition substring :: "string \<Rightarrow> nat \<Rightarrow> nat \<Rightarrow> string" where
  "substring s start end' =
     (let a = min start (length s); b = min end' (length s);
          lo = min a b; hi = max a b
      in take (hi - lo) (drop lo s))"

text \<open>A natural number inside a template literal: its decimal digits.\<close>

function toString :: "nat \<Rightarrow> string" where
  "toString n =
     (if n < 10 then [''0123456789'' ! n]
      else toString (n div 10) @ [''0123456789'' ! (n mod 10)])"
  by pat_completeness auto
termination
  by (relation "measure (\<lambda>n. n)") auto

declare toString.simps [simp del]

section \<open>File names: \<^verbatim>\<open>generateFileName\<close> and \<^verbatim>\<open>formatFileName\<close>\<close>

text \<open>
  \<^verbatim>\<open>TableOfContents.generateFileName\<close> and \<^verbatim>\<open>App.formatFileName\<close> have the same body:
  \<^verbatim>\<open>parts.filter(p => p && p.trim())
       .map(p => p!.trim().replace(/\s+/g, '-').replace(/[^a-zA-Z0-9-_]/g, ''))
       .join('-')\<close>
  A part is \<^verbatim>\<open>string | undefined\<close>, so it is a \<^typ>\<open>string option\<close>. The filter keeps a part
  that is defined, not the empty string, and not empty once trimmed.
\<close>

definition keepPart :: "string option \<Rightarrow> bool" where
  "keepPart p = (case p of None \<Rightarrow> False | Some s \<Rightarrow> s \<noteq> [] \<and> trim s \<noteq> [])"

definition cleanPart :: "string option \<Rightarrow> string" where
  "cleanPart p =
     (case p of None \<Rightarrow> [] | Some s \<Rightarrow> filter isNameChar (replace_ws_runs ''-'' (trim s)))"

definition generateFileName :: "string option list \<Rightarrow> string" where
  "generateFileName parts = join ''-'' (map cleanPart (filter keepPart parts))"

definition formatFileName :: "string option list \<Rightarrow> string" where
  "formatFileName parts = join ''-'' (map cleanPart (filter keepPart parts))"

subsection \<open>The reference definition of the specification\<close>

text \<open>
  The specification words the sanitizer as: drop blank or empty parts, trim each remaining
  part, collapse internal runs of white space to one hyphen, strip every character outside
  \<^verbatim>\<open>[A-Za-z0-9_-]\<close>, join the surviving parts with hyphens. The definitions below follow
  these words, not the code: a part is blank when all its characters are white space;
  trimming removes the leading white space and then the trailing white space; collapsing
  writes one hyphen where a run of white space ends. The surviving parts are the ones the
  first step did not drop.
\<close>

definition spec_blank :: "string option \<Rightarrow> bool" where
  "spec_blank p = (case p of None \<Rightarrow> True | Some s \<Rightarrow> list_all isWhiteSpace s)"

definition spec_drop_trailing :: "string \<Rightarrow> string" where
  "spec_drop_trailing s = foldr (\<lambda>c acc. if isWhiteSpace c \<and> acc = [] then [] else c # acc) s []"

definition spec_trim :: "string \<Rightarrow> string" where
  "spec_trim s = spec_drop_trailing (dropWhile isWhiteSpace s)"

fun spec_collapse :: "string \<Rightarrow> string" where
  "spec_collapse [] = []"
| "spec_collapse [c] = (if isWhiteSpace c then ''-'' else [c])"
| "spec_collapse (c # d # cs) =
     (if isWhiteSpace c then
        (if isWhiteSpace d then spec_collapse (d # cs) else CHR ''-'' # spec_collapse (d # cs))
      else c # spec_collapse (d # cs))"

definition spec_strip :: "string \<Rightarrow> string" where
  "spec_strip s = filter isNameChar s"

definition spec_sanitize :: "string option list \<Rightarrow> string" where
  "spec_sanitize parts =
     join ''-''
       (map (\<lambda>s. spec_strip (spec_collapse (spec_trim s)))
         (map the (filter (\<lambda>p. \<not> spec_blank p) parts)))"

section \<open>The data of the application (\<^verbatim>\<open>types.ts\<close>)\<close>

datatype VoiceName = Kore | Puck | Charon | Fenrir | Aoede

text \<open>The enumeration's values are the strings of the same spelling.\<close>

fun voiceString :: "VoiceName \<Rightarrow> string" where
  "voiceString Kore = ''Kore''"
| "voiceString Puck = ''Puck''"
| "voiceString Charon = ''Charon''"
| "voiceString Fenrir = ''Fenrir''"
| "voiceString Aoede = ''Aoede''"

text \<open>The type \<^verbatim>\<open>AppMode\<close> of \<^verbatim>\<open>types.ts\<close> lists the first three modes; \<^verbatim>\<open>App\<close> sets and
  tests the fourth as well.\<close>

datatype AppMode = NARRATION | DIALOGUE | CLONING | TRANSCRIPTION

datatype Status = Idle | Generating | Success | Error

text \<open>
  \<^verbatim>\<open>GeneratedAudio\<close>: the program never looks inside it, so the blob is its bytes as a
  string and the duration a number that is only carried along.
\<close>

record GeneratedAudio =
  blob :: string
  url :: string
  duration :: nat

text \<open>
  \<^verbatim>\<open>Subsection\<close> and \<^verbatim>\<open>Snippet\<close>. A snippet has the fields of a subsection and the list
  of its subsections. The fields \<^verbatim>\<open>id\<close> and \<^verbatim>\<open>text\<close> are \<open>id_of\<close> and \<open>text_of\<close> here.
\<close>

record Subsection =
  id_of :: string
  name :: string
  text_of :: string
  voice :: VoiceName
  audio :: "GeneratedAudio option"
  status :: Status
  error :: "string option"

record Snippet = Subsection +
  subsections :: "Subsection list"

datatype Character = Character (char_id: string) (char_name: string) (char_voice: VoiceName)

datatype ScriptLine = ScriptLine (line_id: string) (characterId: string) (line_text: string)

text \<open>An uploaded or recorded file: \<^verbatim>\<open>{name, data, mimeType}\<close>.\<close>

datatype FileData = FileData (file_name: string) (file_data: string) (file_mimeType: string)

text \<open>
  The state of the \<^verbatim>\<open>App\<close> component: one field per \<^verbatim>\<open>useState\<close> hook that the
  generation pipeline reads or writes. The hook \<^verbatim>\<open>error\<close> is \<open>appError\<close> here.
\<close>

record App =
  mode :: AppMode
  loading :: bool
  appError :: "string option"
  generatedAudio :: "GeneratedAudio option"
  lastGeneratedHash :: string
  appName :: string
  featureName :: string
  narrationText :: string
  narrationVoice :: VoiceName
  snippets :: "Snippet list"
  characters :: "Character list"
  script :: "ScriptLine list"
  cloningText :: string
  cloningReference :: "FileData option"
  transcriptionFile :: "FileData option"
  transcriptionResult :: string

definition DEFAULT_CHARACTERS :: "Character list" where
  "DEFAULT_CHARACTERS = [Character ''1'' ''Speaker 1'' Kore, Character ''2'' ''Speaker 2'' Puck]"

definition DEFAULT_SCRIPT :: "ScriptLine list" where
  "DEFAULT_SCRIPT =
     [ScriptLine ''s1'' ''1'' ''Hello! I am the first speaker using the Kore voice.'',
      ScriptLine ''s2'' ''2''
        ''And I am the second speaker, using Puck. We can talk to each other!'']"

text \<open>The initial values of the hooks.\<close>

definition initialApp :: App where
  "initialApp =
     \<lparr>mode = NARRATION, loading = False, appError = None, generatedAudio = None,
      lastGeneratedHash = [], appName = ''MyApp'', featureName = ''Tutorial'',
      narrationText = ''Enter text here to generate speech...'', narrationVoice = Kore,
      snippets = [], characters = DEFAULT_CHARACTERS, script = DEFAULT_SCRIPT,
      cloningText = ''Enter text to be spoken by the cloned voice...'',
      cloningReference = None, transcriptionFile = None, transcriptionResult = []\<rparr>"

section \<open>The synthesis service (\<^verbatim>\<open>geminiService.ts\<close>)\<close>

text \<open>
  The remote model is a collaborator: \<^verbatim>\<open>ai.models.generateContent\<close> takes a request and
  either throws (\<open>Inl\<close> the message of what it threw) or returns a response. A request
  is its model name, the parts of its one content, its response modalities and its speech
  configuration. Of a response the code reads \<^verbatim>\<open>candidates?.[0]?.content?.parts\<close>, which
  is undefined when any link of the chain is missing, and \<^verbatim>\<open>text\<close>.
\<close>

datatype ReqPart = ReqInlineData string string | ReqText string

datatype Modality = Modality_AUDIO | Literal_AUDIO

datatype SpeechConfig = PrebuiltVoice VoiceName | MultiSpeaker "(string \<times> VoiceName) list"

datatype Request =
  Request (req_model: string) (req_parts: "ReqPart list") (req_modalities: "Modality list")
    (req_speech: "SpeechConfig option")

datatype InlineData = InlineData (data: "string option")

datatype Part = Part (inlineData: "InlineData option")

datatype Response = Response (candidate_parts: "Part list option") (response_text: "string option")

type_synonym GenAI = "Request \<Rightarrow> string + Response"

text \<open>\<^verbatim>\<open>response.candidates?.[0]?.content?.parts?.[0]?.inlineData?.data\<close>.\<close>

definition firstPartData :: "Response \<Rightarrow> string option" where
  "firstPartData r =
     (case candidate_parts r of
        None \<Rightarrow> None
      | Some [] \<Rightarrow> None
      | Some (p # ps) \<Rightarrow> (case inlineData p of None \<Rightarrow> None | Some d \<Rightarrow> data d))"

text \<open>A value is falsy when it is undefined or the empty string.\<close>

definition falsy :: "string option \<Rightarrow> bool" where
  "falsy v = (case v of None \<Rightarrow> True | Some s \<Rightarrow> s = [])"

definition generateSingleVoice :: "GenAI \<Rightarrow> string \<Rightarrow> VoiceName \<Rightarrow> string + string" where
  "generateSingleVoice ai txt v =
     (case ai (Request ''gemini-2.5-flash-preview-tts'' [ReqText txt] [Modality_AUDIO]
                 (Some (PrebuiltVoice v))) of
        Inl e \<Rightarrow> Inl e
      | Inr response \<Rightarrow>
          (let base64Audio = firstPartData response in
           if falsy base64Audio then Inl ''No audio data returned from Gemini API''
           else Inr (the base64Audio)))"

text \<open>\<^verbatim>\<open>params.characters.find(c => c.id === line.characterId)\<close>.\<close>

definition promptLine :: "Character list \<Rightarrow> ScriptLine \<Rightarrow> string" where
  "promptLine cs line =
     (case find (\<lambda>c. char_id c = characterId line) cs of
        None \<Rightarrow> ''Unknown''
      | Some c \<Rightarrow> char_name c) @ '': '' @ line_text line"

definition generateDialogue :: "GenAI \<Rightarrow> ScriptLine list \<Rightarrow> Character list \<Rightarrow> string + string" where
  "generateDialogue ai scr cs =
     (let promptText = join [CHR 0x0A] (map (promptLine cs) scr);
          speakerVoiceConfigs = map (\<lambda>c. (char_name c, char_voice c)) cs
      in case ai (Request ''gemini-2.5-flash-preview-tts'' [ReqText promptText] [Modality_AUDIO]
                    (Some (MultiSpeaker speakerVoiceConfigs))) of
           Inl e \<Rightarrow> Inl e
         | Inr response \<Rightarrow>
             (let base64Audio = firstPartData response in
              if falsy base64Audio then Inl ''No audio data returned from Gemini API''
              else Inr (the base64Audio)))"

text \<open>The loop of \<^verbatim>\<open>generateClonedSpeech\<close> over the parts: the data of the first part
  whose inline data is there and not empty, the empty string when there is none.\<close>

fun firstInlineAudio :: "Part list \<Rightarrow> string" where
  "firstInlineAudio [] = []"
| "firstInlineAudio (p # ps) =
     (case inlineData p of
        None \<Rightarrow> firstInlineAudio ps
      | Some d \<Rightarrow> if falsy (data d) then firstInlineAudio ps else the (data d))"

definition cloningPrompt :: "string \<Rightarrow> string" where
  "cloningPrompt txt =
     ''Please speak the following text. Try to mimic the voice, tone, and speaking style of the speaker in the provided audio file as closely as possible.''
     @ [CHR 0x0A, CHR 0x0A] @ ''Text: '' @ [CHR 0x22] @ txt @ [CHR 0x22]"

text \<open>The first attempt of \<^verbatim>\<open>generateClonedSpeech\<close>, the body of its outer \<^verbatim>\<open>try\<close>.\<close>

definition nativeCloning :: "GenAI \<Rightarrow> string \<Rightarrow> string \<Rightarrow> string \<Rightarrow> string + string" where
  "nativeCloning ai txt referenceAudio mime =
     (case ai (Request ''gemini-2.0-flash-exp''
                 [ReqInlineData mime referenceAudio, ReqText (cloningPrompt txt)]
                 [Literal_AUDIO] None) of
        Inl e \<Rightarrow> Inl e
      | Inr response \<Rightarrow>
          (let base64Audio =
                 (case candidate_parts response of None \<Rightarrow> [] | Some ps \<Rightarrow> firstInlineAudio ps)
           in if base64Audio = [] then Inl ''Model returned no audio data.''
              else Inr base64Audio))"

definition generateClonedSpeech :: "GenAI \<Rightarrow> string \<Rightarrow> string \<Rightarrow> string \<Rightarrow> string + string" where
  "generateClonedSpeech ai txt referenceAudio mime =
     (case nativeCloning ai txt referenceAudio mime of
        Inr base64Audio \<Rightarrow> Inr base64Audio
      | Inl nativeError \<Rightarrow>
          (case generateSingleVoice ai txt Aoede of
             Inr base64Audio \<Rightarrow> Inr base64Audio
           | Inl fallbackError \<Rightarrow>
               Inl (''Voice Generation failed. Native error: '' @ nativeError @
                    ''. Fallback error: '' @ fallbackError)))"

definition transcribeAudio :: "GenAI \<Rightarrow> string \<Rightarrow> string \<Rightarrow> string + string" where
  "transcribeAudio ai base64Audio mime =
     (case ai (Request ''gemini-2.5-flash''
                 [ReqInlineData mime base64Audio,
                  ReqText ''Transcribe the speech in this audio file into text. Return only the transcription, no other text.'']
                 [] None) of
        Inl e \<Rightarrow> Inl e
      | Inr response \<Rightarrow>
          if falsy (response_text response) then Inl ''No transcription generated.''
          else Inr (the (response_text response)))"

section \<open>Document-level generation and staleness (\<^verbatim>\<open>App\<close>)\<close>

subsection \<open>\<^verbatim>\<open>JSON.stringify\<close> on the values the application hashes\<close>

text \<open>
  A string is written between double quotes; inside, the double quote and the backslash get
  a backslash, the control characters \<open>0x08\<close>, \<open>0x09\<close>, \<open>0x0A\<close>, \<open>0x0C\<close>, \<open>0x0D\<close> their
  short escapes, every other character below \<open>0x20\<close> the escape \<^verbatim>\<open>\u00XX\<close> with
  lower-case hexadecimal digits, and every other character itself.
\<close>

definition hexDigit :: "nat \<Rightarrow> char" where
  "hexDigit n = ''0123456789abcdef'' ! (n mod 16)"

definition jsonEscapeChar :: "char \<Rightarrow> string" where
  "jsonEscapeChar c =
     (if c = CHR 0x22 then [CHR 0x5C, CHR 0x22]
      else if c = CHR 0x5C then [CHR 0x5C, CHR 0x5C]
      else if c = CHR 0x08 then [CHR 0x5C, CHR ''b'']
      else if c = CHR 0x09 then [CHR 0x5C, CHR ''t'']
      else if c = CHR 0x0A then [CHR 0x5C, CHR ''n'']
      else if c = CHR 0x0C then [CHR 0x5C, CHR ''f'']
      else if c = CHR 0x0D then [CHR 0x5C, CHR ''r'']
      else if (of_char c :: nat) < 32 then
        [CHR 0x5C, CHR ''u'', CHR ''0'', CHR ''0'',
         hexDigit ((of_char c :: nat) div 16), hexDigit (of_char c :: nat)]
      else [c])"

definition jsonString :: "string \<Rightarrow> string" where
  "jsonString s = [CHR 0x22] @ concat (map jsonEscapeChar s) @ [CHR 0x22]"

text \<open>A property of an object: its quoted key, a colon, its value.\<close>

definition jsonProp :: "string \<Rightarrow> string \<Rightarrow> string" where
  "jsonProp k v = jsonString k @ '':'' @ v"

definition jsonObject :: "string list \<Rightarrow> string" where
  "jsonObject props = ''{'' @ join '','' props @ ''}''"

definition jsonArray :: "string list \<Rightarrow> string" where
  "jsonArray elems = ''['' @ join '','' elems @ '']''"

text \<open>Script lines and characters are created with their keys in this order, and the
  updates of the application keep it.\<close>

definition jsonScriptLine :: "ScriptLine \<Rightarrow> string" where
  "jsonScriptLine l =
     jsonObject [jsonProp ''id'' (jsonString (line_id l)),
                 jsonProp ''characterId'' (jsonString (characterId l)),
                 jsonProp ''text'' (jsonString (line_text l))]"

definition jsonCharacter :: "Character \<Rightarrow> string" where
  "jsonCharacter c =
     jsonObject [jsonProp ''id'' (jsonString (char_id c)),
                 jsonProp ''name'' (jsonString (char_name c)),
                 jsonProp ''voice'' (jsonString (voiceString (char_voice c)))]"

subsection \<open>\<^verbatim>\<open>getContentHash\<close> and \<^verbatim>\<open>isStale\<close>\<close>

text \<open>
  In cloning mode the hashed object is \<^verbatim>\<open>{text: cloningText, ref: cloningReference?.name}\<close>;
  \<^verbatim>\<open>JSON.stringify\<close> leaves a property out when its value is undefined.
\<close>

definition getContentHash :: "App \<Rightarrow> string" where
  "getContentHash st =
     (if mode st = NARRATION then
        jsonObject [jsonProp ''text'' (jsonString (narrationText st)),
                    jsonProp ''voice'' (jsonString (voiceString (narrationVoice st)))]
      else if mode st = DIALOGUE then
        jsonObject [jsonProp ''script'' (jsonArray (map jsonScriptLine (script st))),
                    jsonProp ''characters'' (jsonArray (map jsonCharacter (characters st)))]
      else if mode st = CLONING then
        (case cloningReference st of
           None \<Rightarrow> jsonObject [jsonProp ''text'' (jsonString (cloningText st))]
         | Some r \<Rightarrow>
             jsonObject [jsonProp ''text'' (jsonString (cloningText st)),
                         jsonProp ''ref'' (jsonString (file_name r))])
      else [])"

definition isStale :: "App \<Rightarrow> bool" where
  "isStale st \<longleftrightarrow>
     generatedAudio st \<noteq> None \<and> getContentHash st \<noteq> lastGeneratedHash st \<and>
     mode st \<noteq> TRANSCRIPTION"

subsection \<open>\<^verbatim>\<open>handleGenerate\<close>\<close>

text \<open>
  The collaborators of a document-level generation: the remote model, and the codec, which
  stands for the steps after the synthesis (\<^verbatim>\<open>getAudioContext\<close>, \<^verbatim>\<open>ctx.resume\<close>,
  \<^verbatim>\<open>decodeAudioData\<close>, \<^verbatim>\<open>bufferToWavBlob\<close>, \<^verbatim>\<open>URL.createObjectURL\<close>): it turns the
  base64 payload into a \<^verbatim>\<open>GeneratedAudio\<close> or throws.
\<close>

record Services =
  ai :: GenAI
  codec :: "string \<Rightarrow> string + GeneratedAudio"

text \<open>The validation and the synthesis call of each mode but transcription.\<close>

definition synthesize :: "Services \<Rightarrow> App \<Rightarrow> string + string" where
  "synthesize sv st =
     (if mode st = NARRATION then
        (if trim (narrationText st) = [] then Inl ''Please enter some text.''
         else generateSingleVoice (ai sv) (narrationText st) (narrationVoice st))
      else if mode st = DIALOGUE then
        (if length (script st) = 0 then Inl ''Script cannot be empty.''
         else generateDialogue (ai sv) (script st) (characters st))
      else
        (if trim (cloningText st) = [] then Inl ''Please enter text for the cloned voice.''
         else case cloningReference st of
                None \<Rightarrow> Inl ''Please upload a reference audio file.''
              | Some r \<Rightarrow>
                  generateClonedSpeech (ai sv) (cloningText st) (file_data r) (file_mimeType r)))"

text \<open>The \<^verbatim>\<open>catch\<close> and \<^verbatim>\<open>finally\<close> blocks:
  \<^verbatim>\<open>setError(err.message || "An error occurred during generation.")\<close>, then
  \<^verbatim>\<open>setLoading(false)\<close>.\<close>

definition generationFailed :: "string \<Rightarrow> App \<Rightarrow> App" where
  "generationFailed msg st =
     st\<lparr>appError := Some (if msg = [] then ''An error occurred during generation.'' else msg),
        loading := False\<rparr>"

text \<open>
  One call of \<^verbatim>\<open>handleGenerate\<close> from its first statement to its last, with no other
  event in between. The hash it records is \<^verbatim>\<open>currentContentHash\<close>, the hash of the
  render in which the call was issued.
\<close>

definition handleGenerate :: "Services \<Rightarrow> App \<Rightarrow> App" where
  "handleGenerate sv st =
     (let currentContentHash = getContentHash st;
          st1 = st\<lparr>loading := True, appError := None, generatedAudio := None\<rparr>
      in if mode st = TRANSCRIPTION then
           (case transcriptionFile st of
              None \<Rightarrow> generationFailed ''Please upload an audio file to transcribe.'' st1
            | Some f \<Rightarrow>
                (case transcribeAudio (ai sv) (file_data f) (file_mimeType f) of
                   Inl e \<Rightarrow> generationFailed e st1
                 | Inr t \<Rightarrow> st1\<lparr>transcriptionResult := t, loading := False\<rparr>))
         else
           (case synthesize sv st of
              Inl e \<Rightarrow> generationFailed e st1
            | Inr base64Audio \<Rightarrow>
                (case codec sv base64Audio of
                   Inl e \<Rightarrow> generationFailed e st1
                 | Inr a \<Rightarrow>
                     st1\<lparr>generatedAudio := Some a,
                         lastGeneratedHash := currentContentHash,
                         loading := False\<rparr>)))"

text \<open>The four mode buttons:
  \<^verbatim>\<open>setMode(m); setGeneratedAudio(null); setError(null); setLastGeneratedHash('')\<close>.\<close>

definition switchMode :: "AppMode \<Rightarrow> App \<Rightarrow> App" where
  "switchMode m st =
     st\<lparr>mode := m, generatedAudio := None, appError := None, lastGeneratedHash := []\<rparr>"

subsection \<open>The inputs a hash is computed from, and runs of document-level events\<close>



text \<open>The setters of the input hooks.\<close>

datatype Edit =
    SetNarrationText string
  | SetNarrationVoice VoiceName
  | SetScript "ScriptLine list"
  | SetCharacters "Character list"
  | SetCloningText string
  | SetCloningReference "FileData option"
  | SetTranscriptionFile "FileData option"
  | SetAppName string
  | SetFeatureName string

fun applyEdit :: "Edit \<Rightarrow> App \<Rightarrow> App" where
  "applyEdit (SetNarrationText t) st = st\<lparr>narrationText := t\<rparr>"
| "applyEdit (SetNarrationVoice v) st = st\<lparr>narrationVoice := v\<rparr>"
| "applyEdit (SetScript l) st = st\<lparr>script := l\<rparr>"
| "applyEdit (SetCharacters l) st = st\<lparr>characters := l\<rparr>"
| "applyEdit (SetCloningText t) st = st\<lparr>cloningText := t\<rparr>"
| "applyEdit (SetCloningReference r) st = st\<lparr>cloningReference := r\<rparr>"
| "applyEdit (SetTranscriptionFile f) st = st\<lparr>transcriptionFile := f\<rparr>"
| "applyEdit (SetAppName n) st = st\<lparr>appName := n\<rparr>"
| "applyEdit (SetFeatureName n) st = st\<lparr>featureName := n\<rparr>"

text \<open>A generation succeeds when the mode produces audio and neither the synthesis nor the
  codec throws.\<close>

definition generationSucceeds :: "Services \<Rightarrow> App \<Rightarrow> bool" where
  "generationSucceeds sv st \<longleftrightarrow>
     mode st \<noteq> TRANSCRIPTION \<and>
     (case synthesize sv st of
        Inl e \<Rightarrow> False
      | Inr b \<Rightarrow> (case codec sv b of Inl e \<Rightarrow> False | Inr a \<Rightarrow> True))"

text \<open>
  A run of document-level events. Beside the state it keeps a history value the program
  does not have: the hash of the inputs of the last generation that succeeded, if any.
\<close>

datatype DocEvent = DocGenerate Services | DocSwitchMode AppMode | DocEdit Edit

fun docStep :: "DocEvent \<Rightarrow> App \<times> string option \<Rightarrow> App \<times> string option" where
  "docStep (DocGenerate sv) (st, h) =
     (handleGenerate sv st, if generationSucceeds sv st then Some (getContentHash st) else h)"
| "docStep (DocSwitchMode m) (st, h) = (switchMode m st, h)"
| "docStep (DocEdit e) (st, h) = (applyEdit e st, h)"


subsection \<open>Sample collaborators\<close>

text \<open>
  Collaborators on which the calls are evaluated: a model that answers every request with
  one audio part, a model that refuses the cloning model and is out of quota for every
  other one, and a codec that accepts every payload.
\<close>

definition sampleAudio :: GeneratedAudio where
  "sampleAudio = \<lparr>blob = ''RIFF'', url = ''blob:1'', duration = 2\<rparr>"

definition answeringAI :: GenAI where
  "answeringAI = (\<lambda>req. Inr (Response (Some [Part (Some (InlineData (Some ''QUJD'')))]) None))"

definition refusingAI :: GenAI where
  "refusingAI =
     (\<lambda>req. if req_model req = ''gemini-2.0-flash-exp'' then Inl ''no access''
            else Inl ''quota exceeded'')"

definition acceptingCodec :: "string \<Rightarrow> string + GeneratedAudio" where
  "acceptingCodec = (\<lambda>payload. Inr sampleAudio)"

definition workingServices :: Services where
  "workingServices = \<lparr>ai = answeringAI, codec = acceptingCodec\<rparr>"

definition offlineServices :: Services where
  "offlineServices = \<lparr>ai = refusingAI, codec = acceptingCodec\<rparr>"

section \<open>Sections and subsections (\<^verbatim>\<open>App\<close>, \<^verbatim>\<open>SectionEditor\<close>)\<close>

text \<open>
  What a handler reads of a text area: its value and its selection. The reference to the
  text area is null while the element is not mounted.
\<close>

record TextArea =
  ta_value :: string
  selectionStart :: nat
  selectionEnd :: nat

text \<open>
  \<^verbatim>\<open>App.addSnippetFromSelection\<close>. The identifier comes from \<^verbatim>\<open>crypto.randomUUID()\<close> and is
  an argument here. Every early \<^verbatim>\<open>return\<close> leaves the state as it is.
\<close>

definition addSnippetFromSelection :: "TextArea option \<Rightarrow> string \<Rightarrow> App \<Rightarrow> App" where
  "addSnippetFromSelection textAreaRef uuid st =
     (case textAreaRef of
        None \<Rightarrow> st
      | Some textArea \<Rightarrow>
          (let start = selectionStart textArea; end' = selectionEnd textArea in
           if start = end' then st
           else
             (let selectedText = substring (ta_value textArea) start end' in
              if trim selectedText = [] then st
              else
                st\<lparr>snippets := snippets st @
                  [\<lparr>id_of = uuid,
                    name = ''Section '' @ toString (length (snippets st) + 1),
                    text_of = selectedText,
                    voice = narrationVoice st,
                    audio = None, status = Idle, error = None,
                    subsections = []\<rparr>]\<rparr>)))"

definition removeSnippet :: "string \<Rightarrow> App \<Rightarrow> App" where
  "removeSnippet i st = st\<lparr>snippets := filter (\<lambda>s. id_of s \<noteq> i) (snippets st)\<rparr>"

definition updateSnippet :: "Snippet \<Rightarrow> App \<Rightarrow> App" where
  "updateSnippet updatedSnippet st =
     st\<lparr>snippets := map (\<lambda>s. if id_of s = id_of updatedSnippet then updatedSnippet else s)
                         (snippets st)\<rparr>"

text \<open>
  \<^verbatim>\<open>SectionEditor.handleExtractSubsection\<close>: the result is the snippet handed to
  \<^verbatim>\<open>onUpdate\<close>, and \<open>None\<close> when the handler returns before calling it.
\<close>

definition handleExtractSubsection :: "TextArea option \<Rightarrow> string \<Rightarrow> Snippet \<Rightarrow> Snippet option" where
  "handleExtractSubsection textAreaRef uuid sec =
     (case textAreaRef of
        None \<Rightarrow> None
      | Some textArea \<Rightarrow>
          (let start = selectionStart textArea; end' = selectionEnd textArea in
           if start = end' then None
           else
             (let selectedText = substring (ta_value textArea) start end' in
              if trim selectedText = [] then None
              else
                Some (sec\<lparr>subsections := subsections sec @
                  [\<lparr>id_of = uuid,
                    name = ''Part '' @ toString (length (subsections sec) + 1),
                    text_of = selectedText,
                    voice = voice sec,
                    audio = None, status = Idle, error = None\<rparr>]\<rparr>))))"

text \<open>The three partial updates that \<^verbatim>\<open>updateSubsection\<close> is called with.\<close>

datatype SubUpdate = UpdateName string | UpdateVoice VoiceName | UpdateText string

fun mergeUpdate :: "SubUpdate \<Rightarrow> Subsection \<Rightarrow> Subsection" where
  "mergeUpdate (UpdateName n) sub = sub\<lparr>name := n\<rparr>"
| "mergeUpdate (UpdateVoice v) sub = sub\<lparr>voice := v\<rparr>"
| "mergeUpdate (UpdateText t) sub = sub\<lparr>text_of := t\<rparr>"

definition updateSubsection :: "string \<Rightarrow> SubUpdate \<Rightarrow> Snippet \<Rightarrow> Snippet" where
  "updateSubsection subId updates sec =
     sec\<lparr>subsections :=
           map (\<lambda>sub. if id_of sub = subId then mergeUpdate updates sub else sub)
               (subsections sec)\<rparr>"

definition deleteSubsection :: "string \<Rightarrow> Snippet \<Rightarrow> Snippet" where
  "deleteSubsection subId sec =
     sec\<lparr>subsections := filter (\<lambda>sub. id_of sub \<noteq> subId) (subsections sec)\<rparr>"

text \<open>
  The actions of one \<^verbatim>\<open>SectionEditor\<close>. Its text area is controlled: its value is the
  text of the section. Each action yields the snippet handed to \<^verbatim>\<open>onUpdate\<close>, if any.
\<close>

datatype SectionAction =
    SetName string
  | SetVoice VoiceName
  | SetText string
  | ExtractSubsection nat nat string
  | UpdateSubsection string SubUpdate
  | DeleteSubsection string

fun sectionAction :: "SectionAction \<Rightarrow> Snippet \<Rightarrow> Snippet option" where
  "sectionAction (SetName n) sec = Some (sec\<lparr>name := n\<rparr>)"
| "sectionAction (SetVoice v) sec = Some (sec\<lparr>voice := v\<rparr>)"
| "sectionAction (SetText t) sec = Some (sec\<lparr>text_of := t\<rparr>)"
| "sectionAction (ExtractSubsection start end' uuid) sec =
     handleExtractSubsection
       (Some \<lparr>ta_value = text_of sec, selectionStart = start, selectionEnd = end'\<rparr>) uuid sec"
| "sectionAction (UpdateSubsection subId updates) sec = Some (updateSubsection subId updates sec)"
| "sectionAction (DeleteSubsection subId) sec = Some (deleteSubsection subId sec)"

text \<open>The action of the editor of the section at position \<open>idx\<close>, with \<^verbatim>\<open>onUpdate\<close> bound
  to \<^verbatim>\<open>updateSnippet\<close>. There is no editor at a position beyond the list.\<close>

definition editSection :: "nat \<Rightarrow> SectionAction \<Rightarrow> App \<Rightarrow> App option" where
  "editSection idx act st =
     (if idx < length (snippets st) then
        (case sectionAction act (snippets st ! idx) of
           None \<Rightarrow> Some st
         | Some updated \<Rightarrow> Some (updateSnippet updated st))
      else None)"

section \<open>Per-node generation (\<^verbatim>\<open>generateSnippet\<close>, \<^verbatim>\<open>generateSubsection\<close>)\<close>

text \<open>\<^verbatim>\<open>processGeneration\<close>: the synthesis, then the codec.\<close>

definition processGeneration :: "Services \<Rightarrow> string \<Rightarrow> VoiceName \<Rightarrow> string + GeneratedAudio" where
  "processGeneration sv txt v =
     (case generateSingleVoice (ai sv) txt v of
        Inl e \<Rightarrow> Inl e
      | Inr base64Audio \<Rightarrow> codec sv base64Audio)"

text \<open>
  A generation is asynchronous: the handler runs up to its \<^verbatim>\<open>await\<close>, other events
  happen, and the rest of the handler runs when the promise settles. A call in flight is
  kept with a token that tells the calls apart, the node it was issued for, and the text
  and the voice it read from the node when it was issued.
\<close>

datatype Target = SectionTarget string | SubsectionTarget string string

datatype Call = Call (call_token: nat) (call_target: Target) (call_text: string) (call_voice: VoiceName)

record World =
  app :: App
  inflight :: "Call list"

definition initialWorld :: World where
  "initialWorld = \<lparr>app = initialApp, inflight = []\<rparr>"

definition setSnippets :: "(Snippet list \<Rightarrow> Snippet list) \<Rightarrow> World \<Rightarrow> World" where
  "setSnippets f w = w\<lparr>app := (app w)\<lparr>snippets := f (snippets (app w))\<rparr>\<rparr>"

text \<open>The part of \<^verbatim>\<open>generateSnippet\<close> before the \<^verbatim>\<open>await\<close>.\<close>

definition generateSnippet :: "nat \<Rightarrow> string \<Rightarrow> World \<Rightarrow> World" where
  "generateSnippet tok i w =
     (case find (\<lambda>s. id_of s = i) (snippets (app w)) of
        None \<Rightarrow> w
      | Some snippet \<Rightarrow>
          (setSnippets
             (map (\<lambda>s. if id_of s = i then s\<lparr>status := Generating, error := None\<rparr> else s)) w)
          \<lparr>inflight := inflight w @ [Call tok (SectionTarget i) (text_of snippet) (voice snippet)]\<rparr>)"

text \<open>The part of \<^verbatim>\<open>generateSubsection\<close> before the \<^verbatim>\<open>await\<close>.\<close>

definition generateSubsection :: "nat \<Rightarrow> string \<Rightarrow> string \<Rightarrow> World \<Rightarrow> World" where
  "generateSubsection tok sectionId subsectionId w =
     (case find (\<lambda>s. id_of s = sectionId) (snippets (app w)) of
        None \<Rightarrow> w
      | Some snippet \<Rightarrow>
          (case find (\<lambda>sub. id_of sub = subsectionId) (subsections snippet) of
             None \<Rightarrow> w
           | Some sub \<Rightarrow>
               (setSnippets
                  (map (\<lambda>s. if id_of s = sectionId then
                               s\<lparr>subsections :=
                                   map (\<lambda>sub. if id_of sub = subsectionId
                                              then sub\<lparr>status := Generating, error := None\<rparr>
                                              else sub)
                                       (subsections s)\<rparr>
                             else s)) w)
               \<lparr>inflight := inflight w @
                  [Call tok (SubsectionTarget sectionId subsectionId) (text_of sub) (voice sub)]\<rparr>))"

text \<open>The part after the \<^verbatim>\<open>await\<close>: what the handler writes when its promise is fulfilled
  with an audio or rejected with a message.\<close>

fun applyOutcome :: "Target \<Rightarrow> string + GeneratedAudio \<Rightarrow> Snippet list \<Rightarrow> Snippet list" where
  "applyOutcome (SectionTarget i) (Inr a) =
     map (\<lambda>s. if id_of s = i then s\<lparr>status := Success, audio := Some a\<rparr> else s)"
| "applyOutcome (SectionTarget i) (Inl msg) =
     map (\<lambda>s. if id_of s = i then s\<lparr>status := Error, error := Some msg\<rparr> else s)"
| "applyOutcome (SubsectionTarget sectionId subsectionId) (Inr a) =
     map (\<lambda>s. if id_of s = sectionId then
                 s\<lparr>subsections :=
                     map (\<lambda>sub. if id_of sub = subsectionId
                                then sub\<lparr>status := Success, audio := Some a\<rparr> else sub)
                         (subsections s)\<rparr>
               else s)"
| "applyOutcome (SubsectionTarget sectionId subsectionId) (Inl msg) =
     map (\<lambda>s. if id_of s = sectionId then
                 s\<lparr>subsections :=
                     map (\<lambda>sub. if id_of sub = subsectionId
                                then sub\<lparr>status := Error, error := Some msg\<rparr> else sub)
                         (subsections s)\<rparr>
               else s)"

text \<open>The call with a given token settles: the collaborators answer for the text and the
  voice the call was issued with, and the handler writes the outcome.\<close>

definition settle :: "nat \<Rightarrow> Services \<Rightarrow> World \<Rightarrow> World option" where
  "settle tok sv w =
     (case find (\<lambda>c. call_token c = tok) (inflight w) of
        None \<Rightarrow> None
      | Some c \<Rightarrow>
          Some ((setSnippets
                   (applyOutcome (call_target c)
                      (processGeneration sv (call_text c) (call_voice c))) w)
                \<lparr>inflight := filter (\<lambda>c. call_token c \<noteq> tok) (inflight w)\<rparr>))"

text \<open>
  The events of the application. A generation needs a token that no call in flight has; a
  settlement needs a call in flight; a section action needs its editor. An event that is
  not possible in a state has no successor state.
\<close>

datatype Event =
    GenerateSnippet nat string
  | GenerateSubsection nat string string
  | Settle nat Services
  | AddSnippet nat nat string
  | RemoveSnippet string
  | ClearAll
  | SectionEdit nat SectionAction
  | Document DocEvent

definition tokenFree :: "nat \<Rightarrow> World \<Rightarrow> bool" where
  "tokenFree tok w = (find (\<lambda>c. call_token c = tok) (inflight w) = None)"

fun step :: "Event \<Rightarrow> World \<Rightarrow> World option" where
  "step (GenerateSnippet tok i) w =
     (if tokenFree tok w then Some (generateSnippet tok i w) else None)"
| "step (GenerateSubsection tok i j) w =
     (if tokenFree tok w then Some (generateSubsection tok i j w) else None)"
| "step (Settle tok sv) w = settle tok sv w"
| "step (AddSnippet start end' uuid) w =
     Some (w\<lparr>app := addSnippetFromSelection
                 (Some \<lparr>ta_value = narrationText (app w), selectionStart = start,
                        selectionEnd = end'\<rparr>) uuid (app w)\<rparr>)"
| "step (RemoveSnippet i) w = Some (w\<lparr>app := removeSnippet i (app w)\<rparr>)"
| "step ClearAll w = Some (w\<lparr>app := (app w)\<lparr>snippets := []\<rparr>\<rparr>)"
| "step (SectionEdit idx act) w =
     (case editSection idx act (app w) of
        None \<Rightarrow> None
      | Some st \<Rightarrow> Some (w\<lparr>app := st\<rparr>))"
| "step (Document ev) w = Some (w\<lparr>app := fst (docStep ev (app w, None))\<rparr>)"

fun run :: "Event list \<Rightarrow> World \<Rightarrow> World option" where
  "run [] w = Some w"
| "run (ev # evs) w = (case step ev w of None \<Rightarrow> None | Some w' \<Rightarrow> run evs w')"

subsection \<open>Invariants of the nodes\<close>

text \<open>
  What holds of a node in every state: a node whose status is success has an artifact, a
  node whose status is error has an error message. A section is well formed when it and
  its subsections are.
\<close>

definition nodeOk :: "'a Subsection_scheme \<Rightarrow> bool" where
  "nodeOk n \<longleftrightarrow> (status n = Success \<longrightarrow> audio n \<noteq> None) \<and> (status n = Error \<longrightarrow> error n \<noteq> None)"

definition secOk :: "Snippet \<Rightarrow> bool" where
  "secOk s \<longleftrightarrow> nodeOk s \<and> list_all nodeOk (subsections s)"

definition treeOk :: "Snippet list \<Rightarrow> bool" where
  "treeOk sns = list_all secOk sns"

text \<open>A node whose status is success has no error message.\<close>

definition nodeClean :: "'a Subsection_scheme \<Rightarrow> bool" where
  "nodeClean n \<longleftrightarrow> (status n = Success \<longrightarrow> error n = None)"

definition secClean :: "Snippet \<Rightarrow> bool" where
  "secClean s \<longleftrightarrow> nodeClean s \<and> list_all nodeClean (subsections s)"

definition treeClean :: "Snippet list \<Rightarrow> bool" where
  "treeClean sns = list_all secClean sns"

text \<open>The artifacts of all nodes, in order.\<close>

definition artifacts :: "Snippet list \<Rightarrow> (GeneratedAudio option \<times> GeneratedAudio option list) list" where
  "artifacts sns = map (\<lambda>s. (audio s, map audio (subsections s))) sns"

text \<open>
  Calls on one node do not overlap in a run when no generation is issued for a node while
  a call for that node is in flight.
\<close>

fun allowed :: "Event \<Rightarrow> World \<Rightarrow> bool" where
  "allowed (GenerateSnippet tok i) w =
     list_all (\<lambda>c. call_target c \<noteq> SectionTarget i) (inflight w)"
| "allowed (GenerateSubsection tok i j) w =
     list_all (\<lambda>c. call_target c \<noteq> SubsectionTarget i j) (inflight w)"
| "allowed ev w = True"

fun exclusive :: "Event list \<Rightarrow> World \<Rightarrow> bool" where
  "exclusive [] w = True"
| "exclusive (ev # evs) w =
     (allowed ev w \<and> (case step ev w of None \<Rightarrow> True | Some w' \<Rightarrow> exclusive evs w'))"

text \<open>While a call for a node is in flight and calls do not overlap, the nodes the call
  will write to have no error message.\<close>

fun clearAt :: "Target \<Rightarrow> Snippet \<Rightarrow> bool" where
  "clearAt (SectionTarget i) s = (id_of s = i \<longrightarrow> error s = None)"
| "clearAt (SubsectionTarget i j) s =
     (id_of s = i \<longrightarrow> list_all (\<lambda>sub. id_of sub = j \<longrightarrow> error sub = None) (subsections s))"

definition exclusiveInv :: "World \<Rightarrow> bool" where
  "exclusiveInv w \<longleftrightarrow>
     treeClean (snippets (app w)) \<and>
     list_all (\<lambda>c. list_all (clearAt (call_target c)) (snippets (app w))) (inflight w) \<and>
     distinct (map call_target (inflight w))"

subsection \<open>A sample section\<close>

definition sampleSection :: Snippet where
  "sampleSection =
     \<lparr>id_of = ''a'', name = ''Section 1'', text_of = ''Enter'', voice = Kore,
      audio = None, status = Idle, error = None, subsections = []\<rparr>"

definition secondAudio :: GeneratedAudio where
  "secondAudio = \<lparr>blob = ''RIFF2'', url = ''blob:2'', duration = 3\<rparr>"

definition secondCodec :: "string \<Rightarrow> string + GeneratedAudio" where
  "secondCodec = (\<lambda>payload. Inr secondAudio)"

definition secondServices :: Services where
  "secondServices = \<lparr>ai = answeringAI, codec = secondCodec\<rparr>"

definition sampleWorld :: World where
  "sampleWorld = \<lparr>app = initialApp\<lparr>snippets := [sampleSection]\<rparr>, inflight = []\<rparr>"

section \<open>Export (\<^verbatim>\<open>TableOfContents.handleDownloadAll\<close>)\<close>

text \<open>
  The archive library is a collaborator. \<^verbatim>\<open>zip.folder(name)\<close> yields a folder or nothing;
  \<^verbatim>\<open>rootFolder.file(name, data)\<close> puts a member into the folder, in place of a member of the
  same name if there is one; \<^verbatim>\<open>zip.generateAsync\<close> turns the folder into one blob or
  throws. The members of the folder are kept as a list of names and contents.
\<close>

record Zip =
  zip_folder :: "string \<Rightarrow> bool"
  zip_generateAsync :: "string \<Rightarrow> (string \<times> string) list \<Rightarrow> string + string"

fun putFile :: "string \<Rightarrow> string \<Rightarrow> (string \<times> string) list \<Rightarrow> (string \<times> string) list" where
  "putFile n d [] = [(n, d)]"
| "putFile n d ((k, v) # fs) = (if k = n then (n, d) # fs else (k, v) # putFile n d fs)"

text \<open>The two lines of the outline, for the section at index \<open>i\<close> and for its subsection
  at index \<open>j\<close>:
  \<^verbatim>\<open>`${i + 1}. ${snippet.name} (${snippet.voice})\n`\<close> and
  \<^verbatim>\<open>`   ${i + 1}.${j + 1}. ${sub.name} (${sub.voice})\n`\<close>.\<close>

definition sectionLine :: "nat \<Rightarrow> Snippet \<Rightarrow> string" where
  "sectionLine i snippet =
     toString (i + 1) @ ''. '' @ name snippet @ '' ('' @ voiceString (voice snippet) @ '')'' @
     [CHR 0x0A]"

definition subsectionLine :: "nat \<Rightarrow> nat \<Rightarrow> Subsection \<Rightarrow> string" where
  "subsectionLine i j sub =
     ''   '' @ toString (i + 1) @ ''.'' @ toString (j + 1) @ ''. '' @ name sub @
     '' ('' @ voiceString (voice sub) @ '')'' @ [CHR 0x0A]"

text \<open>The inner loop over the subsections of a section, from index \<open>j\<close> on. It carries the
  markdown text and the members of the folder.\<close>

fun processSubsections ::
  "string \<Rightarrow> string \<Rightarrow> string \<Rightarrow> nat \<Rightarrow> nat \<Rightarrow> Subsection list \<Rightarrow>
   string \<times> (string \<times> string) list \<Rightarrow> string \<times> (string \<times> string) list" where
  "processSubsections an fnm secName i j [] acc = acc"
| "processSubsections an fnm secName i j (sub # subs) (markdownContent, files) =
     processSubsections an fnm secName i (j + 1) subs
       (markdownContent @ subsectionLine i j sub,
        case audio sub of
          None \<Rightarrow> files
        | Some a \<Rightarrow>
            putFile (generateFileName [Some an, Some fnm, Some secName, Some (name sub)] @ ''.wav'')
              (blob a) files)"

text \<open>The outer loop over the sections, from index \<open>i\<close> on.\<close>

fun processSnippets ::
  "string \<Rightarrow> string \<Rightarrow> nat \<Rightarrow> Snippet list \<Rightarrow>
   string \<times> (string \<times> string) list \<Rightarrow> string \<times> (string \<times> string) list" where
  "processSnippets an fnm i [] acc = acc"
| "processSnippets an fnm i (snippet # rest) (markdownContent, files) =
     (let withSection =
            (markdownContent @ sectionLine i snippet,
             case audio snippet of
               None \<Rightarrow> files
             | Some a \<Rightarrow>
                 putFile (generateFileName [Some an, Some fnm, Some (name snippet)] @ ''.wav'')
                   (blob a) files);
          withSubs = processSubsections an fnm (name snippet) i 0 (subsections snippet) withSection
      in processSnippets an fnm (i + 1) rest (fst withSubs @ [CHR 0x0A], snd withSubs))"

text \<open>The text the markdown starts with; \<open>now\<close> is \<^verbatim>\<open>new Date().toLocaleString()\<close>.\<close>

definition manifestHeader :: "string \<Rightarrow> string \<Rightarrow> string \<Rightarrow> string" where
  "manifestHeader an fnm now =
     ''# '' @ an @ '' - '' @ fnm @ [CHR 0x0A, CHR 0x0A] @
     ''Generated: '' @ now @ [CHR 0x0A, CHR 0x0A] @ ''## Structure'' @ [CHR 0x0A, CHR 0x0A]"

text \<open>The markdown text, and the members of the folder at the time \<^verbatim>\<open>generateAsync\<close> is
  called: the audio files, then \<^verbatim>\<open>structure.md\<close>.\<close>

definition manifest :: "string \<Rightarrow> string \<Rightarrow> string \<Rightarrow> Snippet list \<Rightarrow> string" where
  "manifest an fnm now sns = fst (processSnippets an fnm 0 sns (manifestHeader an fnm now, []))"

definition folderMembers :: "string \<Rightarrow> string \<Rightarrow> string \<Rightarrow> Snippet list \<Rightarrow> (string \<times> string) list" where
  "folderMembers an fnm now sns =
     putFile ''structure.md'' (manifest an fnm now sns)
       (snd (processSnippets an fnm 0 sns (manifestHeader an fnm now, [])))"

text \<open>
  \<^verbatim>\<open>handleDownloadAll\<close>, for the properties \<^verbatim>\<open>snippets\<close>, \<^verbatim>\<open>appName\<close> and
  \<^verbatim>\<open>featureName\<close> of the component. With no section it returns at once. An error thrown
  in the \<^verbatim>\<open>try\<close> block is caught and reported by an alert, and nothing is downloaded.
\<close>

datatype DownloadOutcome = NothingToDownload | ZipFailed | Downloaded string string

definition handleDownloadAll ::
  "Zip \<Rightarrow> string \<Rightarrow> string \<Rightarrow> string \<Rightarrow> Snippet list \<Rightarrow> DownloadOutcome" where
  "handleDownloadAll jszip now an fnm sns =
     (if length sns = 0 then NothingToDownload
      else
        (let folderName = generateFileName [Some an, Some fnm] in
         if \<not> zip_folder jszip folderName then ZipFailed
         else
           (case zip_generateAsync jszip folderName (folderMembers an fnm now sns) of
              Inl e \<Rightarrow> ZipFailed
            | Inr content \<Rightarrow> Downloaded (folderName @ ''.zip'') content)))"

text \<open>Whether no section and no subsection holds an artifact.\<close>

definition noArtifacts :: "Snippet list \<Rightarrow> bool" where
  "noArtifacts sns =
     list_all (\<lambda>s. audio s = None \<and> list_all (\<lambda>sub. audio sub = None) (subsections s)) sns"

text \<open>An archive library that always works, and a section with a subsection.\<close>

definition workingZip :: Zip where
  "workingZip = \<lparr>zip_folder = (\<lambda>n. True), zip_generateAsync = (\<lambda>n members. Inr ''PK'')\<rparr>"

definition sampleTree :: "Snippet list" where
  "sampleTree =
     [sampleSection\<lparr>subsections :=
        [\<lparr>id_of = ''b'', name = ''Part 1'', text_of = ''En'', voice = Puck,
          audio = None, status = Idle, error = None\<rparr>]\<rparr>]"

section \<open>Properties of the file names\<close>

lemma trim_Nil_iff: "trim s = [] \<longleftrightarrow> list_all isWhiteSpace s"
proof
  assume "trim s = []"
  then have all_ws: "\<forall>x\<in>set (dropWhile isWhiteSpace s). isWhiteSpace x"
    by (simp add: trim_def)
  have "dropWhile isWhiteSpace s = []"
  proof (rule ccontr)
    assume ne: "dropWhile isWhiteSpace s \<noteq> []"
    then have "\<not> isWhiteSpace (hd (dropWhile isWhiteSpace s))"
      by (rule hd_dropWhile)
    moreover have "hd (dropWhile isWhiteSpace s) \<in> set (dropWhile isWhiteSpace s)"
      using ne by simp
    ultimately show False
      using all_ws by blast
  qed
  then show "list_all isWhiteSpace s"
    by (simp add: list_all_iff)
next
  assume "list_all isWhiteSpace s"
  then have d: "dropWhile isWhiteSpace s = []"
    by (simp add: list_all_iff)
  show "trim s = []"
    unfolding trim_def d by simp
qed

lemma keepPart_iff: "keepPart p \<longleftrightarrow> \<not> spec_blank p"
  by (cases p) (auto simp: keepPart_def spec_blank_def trim_Nil_iff)

lemma spec_drop_trailing_append:
  "spec_drop_trailing (xs @ ys) =
     (if spec_drop_trailing ys = [] then spec_drop_trailing xs else xs @ spec_drop_trailing ys)"
  by (induction xs) (auto simp: spec_drop_trailing_def)

lemma spec_drop_trailing_rev: "spec_drop_trailing s = rev (dropWhile isWhiteSpace (rev s))"
proof (induction s rule: rev_induct)
  case Nil
  show ?case by (simp add: spec_drop_trailing_def)
next
  case (snoc c s)
  have one: "spec_drop_trailing [c] = (if isWhiteSpace c then [] else [c])"
    by (simp add: spec_drop_trailing_def)
  show ?case
    using snoc by (simp add: spec_drop_trailing_append one)
qed

lemma spec_trim_eq: "spec_trim s = trim s"
  by (simp add: spec_trim_def trim_def spec_drop_trailing_rev)

lemma spec_collapse_eq: "spec_collapse s = replace_ws_runs ''-'' s"
proof (induction s rule: spec_collapse.induct)
  case 1
  show ?case by simp
next
  case (2 c)
  show ?case by simp
next
  case (3 c d cs)
  then show ?case by simp
qed

lemma cleanPart_eq:
  "cleanPart (Some s) = spec_strip (spec_collapse (spec_trim s))"
  by (simp add: cleanPart_def spec_strip_def spec_collapse_eq spec_trim_eq)

lemma map_cleanPart_eq:
  "map cleanPart (filter keepPart parts) =
   map (\<lambda>s. spec_strip (spec_collapse (spec_trim s)))
     (map the (filter (\<lambda>p. \<not> spec_blank p) parts))"
proof (induction parts)
  case Nil
  show ?case by simp
next
  case (Cons p ps)
  show ?case
  proof (cases p)
    case None
    with Cons show ?thesis by (simp add: keepPart_def spec_blank_def)
  next
    case (Some s)
    with Cons show ?thesis by (simp add: keepPart_iff cleanPart_eq)
  qed
qed

text \<open>
  C7. The sanitizer is a total function (every HOL function is) that equals the reference
  definition of the specification on every list of parts, for \<^verbatim>\<open>generateFileName\<close> and
  for its copy \<^verbatim>\<open>formatFileName\<close>; and it maps \<open>["My App", "Intro!!"]\<close> to
  \<open>"My-App-Intro"\<close> and \<open>["", "  "]\<close> to the empty string.
\<close>

theorem sanitize_refines_spec:
  "generateFileName parts = spec_sanitize parts \<and>
   formatFileName parts = spec_sanitize parts \<and>
   generateFileName [Some ''My App'', Some ''Intro!!''] = ''My-App-Intro'' \<and>
   generateFileName [Some '''', Some ''  ''] = ''''"
proof -
  have a: "generateFileName parts = spec_sanitize parts"
    by (simp add: generateFileName_def spec_sanitize_def map_cleanPart_eq)
  have b: "formatFileName parts = spec_sanitize parts"
    by (simp add: formatFileName_def spec_sanitize_def map_cleanPart_eq)
  have c: "generateFileName [Some ''My App'', Some ''Intro!!''] = ''My-App-Intro''"
    by (simp add: generateFileName_def keepPart_def cleanPart_def trim_def
        isWhiteSpace_def isNameChar_def)
  have d: "generateFileName [Some '''', Some ''  ''] = ''''"
    by (simp add: generateFileName_def keepPart_def cleanPart_def trim_def
        isWhiteSpace_def isNameChar_def)
  from a b c d show ?thesis by simp
qed

section \<open>Properties of the mode buttons\<close>

text \<open>
  C10. Each of the four mode buttons sets the mode and clears the document artifact, the
  error message and the recorded hash, whatever the state and the mode were; so right
  after every mode switch \<open>isStale\<close> is false.
\<close>

theorem switchMode_clears:
  "mode (switchMode m st) = m \<and>
   generatedAudio (switchMode m st) = None \<and>
   appError (switchMode m st) = None \<and>
   lastGeneratedHash (switchMode m st) = [] \<and>
   \<not> isStale (switchMode m st)"
  by (simp add: switchMode_def isStale_def)

section \<open>Properties of the cloned-voice fallback\<close>

lemma generateClonedSpeech_native_ok:
  "nativeCloning g txt r m = Inr a \<Longrightarrow> generateClonedSpeech g txt r m = Inr a"
  by (simp add: generateClonedSpeech_def)

lemma generateClonedSpeech_fallback:
  "nativeCloning g txt r m = Inl e1 \<Longrightarrow>
   generateClonedSpeech g txt r m =
     (case generateSingleVoice g txt Aoede of
        Inr a \<Rightarrow> Inr a
      | Inl e2 \<Rightarrow>
          Inl (''Voice Generation failed. Native error: '' @ e1 @ ''. Fallback error: '' @ e2))"
  by (simp add: generateClonedSpeech_def)

lemma generateClonedSpeech_raises_iff:
  "(\<exists>msg. generateClonedSpeech g txt r m = Inl msg) \<longleftrightarrow>
   (\<exists>e1 e2. nativeCloning g txt r m = Inl e1 \<and> generateSingleVoice g txt Aoede = Inl e2)"
  by (auto simp: generateClonedSpeech_def split: sum.splits)

lemma sublist_middle: "sublist e (p @ e @ q)"
  unfolding sublist_def by blast

lemma sublist_end: "sublist e (p @ e)"
  unfolding sublist_def by (metis append_Nil2)

text \<open>
  C8. When the mimicry attempt succeeds its audio is returned. When it fails, the result is
  that of plain synthesis of the same text with the fixed voice Aoede. An error is raised
  exactly when both attempts fail, and then its message is made of both failure messages,
  which it contains.
\<close>

theorem generateClonedSpeech_two_tier:
  "(\<forall>a. nativeCloning g txt r m = Inr a \<longrightarrow> generateClonedSpeech g txt r m = Inr a) \<and>
   (\<forall>e1. nativeCloning g txt r m = Inl e1 \<longrightarrow>
      (\<forall>a. generateSingleVoice g txt Aoede = Inr a \<longrightarrow>
           generateClonedSpeech g txt r m = Inr a) \<and>
      (\<forall>e2. generateSingleVoice g txt Aoede = Inl e2 \<longrightarrow>
           generateClonedSpeech g txt r m =
             Inl (''Voice Generation failed. Native error: '' @ e1 @
                  ''. Fallback error: '' @ e2) \<and>
           sublist e1 (''Voice Generation failed. Native error: '' @ e1 @
                  ''. Fallback error: '' @ e2) \<and>
           sublist e2 (''Voice Generation failed. Native error: '' @ e1 @
                  ''. Fallback error: '' @ e2))) \<and>
   ((\<exists>msg. generateClonedSpeech g txt r m = Inl msg) \<longleftrightarrow>
    (\<exists>e1 e2. nativeCloning g txt r m = Inl e1 \<and> generateSingleVoice g txt Aoede = Inl e2))"
proof (intro conjI allI impI)
  fix a assume "nativeCloning g txt r m = Inr a"
  then show "generateClonedSpeech g txt r m = Inr a"
    by (rule generateClonedSpeech_native_ok)
next
  fix e1 a
  assume "nativeCloning g txt r m = Inl e1" and "generateSingleVoice g txt Aoede = Inr a"
  then show "generateClonedSpeech g txt r m = Inr a"
    by (simp add: generateClonedSpeech_fallback)
next
  fix e1 e2
  assume "nativeCloning g txt r m = Inl e1" and "generateSingleVoice g txt Aoede = Inl e2"
  then show "generateClonedSpeech g txt r m =
      Inl (''Voice Generation failed. Native error: '' @ e1 @ ''. Fallback error: '' @ e2)"
    by (simp add: generateClonedSpeech_fallback)
next
  fix e1 e2
  show "sublist e1 (''Voice Generation failed. Native error: '' @ e1 @
                  ''. Fallback error: '' @ e2)"
    by (rule sublist_middle)
next
  fix e1 e2
  have "sublist e2 ((''Voice Generation failed. Native error: '' @ e1 @
                  ''. Fallback error: '') @ e2)"
    by (rule sublist_end)
  then show "sublist e2 (''Voice Generation failed. Native error: '' @ e1 @
                  ''. Fallback error: '' @ e2)"
    by simp
next
  show "(\<exists>msg. generateClonedSpeech g txt r m = Inl msg) \<longleftrightarrow>
    (\<exists>e1 e2. nativeCloning g txt r m = Inl e1 \<and> generateSingleVoice g txt Aoede = Inl e2)"
    by (rule generateClonedSpeech_raises_iff)
qed

lemma refusingAI_native:
  "nativeCloning refusingAI ''Hello'' ''UklGRg=='' ''audio/wav'' = Inl ''no access''"
  by (simp add: nativeCloning_def refusingAI_def)

lemma refusingAI_fallback:
  "generateSingleVoice refusingAI ''Hello'' Aoede = Inl ''quota exceeded''"
  by (simp add: generateSingleVoice_def refusingAI_def)

theorem generateClonedSpeech_two_tier_witness:
  "nativeCloning refusingAI ''Hello'' ''UklGRg=='' ''audio/wav'' = Inl ''no access'' \<and>
   generateSingleVoice refusingAI ''Hello'' Aoede = Inl ''quota exceeded'' \<and>
   generateClonedSpeech refusingAI ''Hello'' ''UklGRg=='' ''audio/wav'' =
     Inl ''Voice Generation failed. Native error: no access. Fallback error: quota exceeded''"
  using generateClonedSpeech_two_tier
          [of refusingAI "''Hello''" "''UklGRg==''" "''audio/wav''"]
        refusingAI_native refusingAI_fallback
  by simp

section \<open>Properties of document-level generation\<close>

lemma handleGenerate_synthesis_fails:
  "mode st \<noteq> TRANSCRIPTION \<Longrightarrow> synthesize sv st = Inl e \<Longrightarrow>
   handleGenerate sv st =
     st\<lparr>loading := False, generatedAudio := None,
        appError := Some (if e = [] then ''An error occurred during generation.'' else e)\<rparr>"
  by (simp add: handleGenerate_def generationFailed_def)

lemma handleGenerate_decode_fails:
  "mode st \<noteq> TRANSCRIPTION \<Longrightarrow> synthesize sv st = Inr b \<Longrightarrow> codec sv b = Inl e \<Longrightarrow>
   handleGenerate sv st =
     st\<lparr>loading := False, generatedAudio := None,
        appError := Some (if e = [] then ''An error occurred during generation.'' else e)\<rparr>"
  by (simp add: handleGenerate_def generationFailed_def)

lemma handleGenerate_succeeds:
  "mode st \<noteq> TRANSCRIPTION \<Longrightarrow> synthesize sv st = Inr b \<Longrightarrow> codec sv b = Inr a \<Longrightarrow>
   handleGenerate sv st =
     st\<lparr>loading := False, appError := None, generatedAudio := Some a,
        lastGeneratedHash := getContentHash st\<rparr>"
  by (simp add: handleGenerate_def Let_def)

lemma handleGenerate_transcription_hash:
  "mode st = TRANSCRIPTION \<Longrightarrow>
   lastGeneratedHash (handleGenerate sv st) = lastGeneratedHash st \<and>
   generatedAudio (handleGenerate sv st) = None"
  by (simp add: handleGenerate_def generationFailed_def Let_def split: option.splits sum.splits)

text \<open>
  C4, as the code has it. A document-level generation first clears the error and the
  prior artifact. When the validation, the synthesis or the decoding fails, the artifact
  stays cleared, the failure's message (a fixed text when the message is empty) is the
  error, and the recorded hash is the one from before the call. When all steps succeed the
  new artifact is attached, the error stays cleared, and the hash of the inputs is
  recorded. The recorded hash changes in no other case.
\<close>

theorem handleGenerate_outcomes:
  "(mode st \<noteq> TRANSCRIPTION \<longrightarrow>
      (\<forall>e. synthesize sv st = Inl e \<or> (\<exists>b. synthesize sv st = Inr b \<and> codec sv b = Inl e) \<longrightarrow>
         generatedAudio (handleGenerate sv st) = None \<and>
         appError (handleGenerate sv st) =
           Some (if e = [] then ''An error occurred during generation.'' else e) \<and>
         lastGeneratedHash (handleGenerate sv st) = lastGeneratedHash st) \<and>
      (\<forall>b a. synthesize sv st = Inr b \<and> codec sv b = Inr a \<longrightarrow>
         generatedAudio (handleGenerate sv st) = Some a \<and>
         appError (handleGenerate sv st) = None \<and>
         lastGeneratedHash (handleGenerate sv st) = getContentHash st)) \<and>
   (lastGeneratedHash (handleGenerate sv st) \<noteq> lastGeneratedHash st \<longrightarrow>
      mode st \<noteq> TRANSCRIPTION \<and>
      (\<exists>b a. synthesize sv st = Inr b \<and> codec sv b = Inr a \<and>
             generatedAudio (handleGenerate sv st) = Some a))"
proof (intro conjI impI allI)
  fix e
  assume m: "mode st \<noteq> TRANSCRIPTION"
    and f: "synthesize sv st = Inl e \<or> (\<exists>b. synthesize sv st = Inr b \<and> codec sv b = Inl e)"
  from f have eq: "handleGenerate sv st =
     st\<lparr>loading := False, generatedAudio := None,
        appError := Some (if e = [] then ''An error occurred during generation.'' else e)\<rparr>"
    using m handleGenerate_synthesis_fails handleGenerate_decode_fails by blast
  show "generatedAudio (handleGenerate sv st) = None" by (simp add: eq)
  show "appError (handleGenerate sv st) =
           Some (if e = [] then ''An error occurred during generation.'' else e)"
    by (simp add: eq)
  show "lastGeneratedHash (handleGenerate sv st) = lastGeneratedHash st" by (simp add: eq)
next
  fix b a
  assume m: "mode st \<noteq> TRANSCRIPTION"
    and ok: "synthesize sv st = Inr b \<and> codec sv b = Inr a"
  then have eq: "handleGenerate sv st =
     st\<lparr>loading := False, appError := None, generatedAudio := Some a,
        lastGeneratedHash := getContentHash st\<rparr>"
    by (simp add: handleGenerate_succeeds)
  show "generatedAudio (handleGenerate sv st) = Some a" by (simp add: eq)
  show "appError (handleGenerate sv st) = None" by (simp add: eq)
  show "lastGeneratedHash (handleGenerate sv st) = getContentHash st" by (simp add: eq)
next
  assume ch: "lastGeneratedHash (handleGenerate sv st) \<noteq> lastGeneratedHash st"
  then show m: "mode st \<noteq> TRANSCRIPTION"
    using handleGenerate_transcription_hash by blast
  show "\<exists>b a. synthesize sv st = Inr b \<and> codec sv b = Inr a \<and>
             generatedAudio (handleGenerate sv st) = Some a"
  proof (cases "synthesize sv st")
    case (Inl e)
    with m ch show ?thesis by (simp add: handleGenerate_synthesis_fails)
  next
    case (Inr b)
    show ?thesis
    proof (cases "codec sv b")
      case (Inl e)
      with m ch Inr show ?thesis by (simp add: handleGenerate_decode_fails)
    next
      case (Inr a)
      with m \<open>synthesize sv st = Inr b\<close> show ?thesis
        by (simp add: handleGenerate_succeeds)
    qed
  qed
qed

lemma initialApp_synthesize_working:
  "synthesize workingServices initialApp = Inr ''QUJD''"
  by (simp add: synthesize_def initialApp_def workingServices_def answeringAI_def
      generateSingleVoice_def firstPartData_def falsy_def trim_def isWhiteSpace_def)

lemma initialApp_synthesize_offline:
  "synthesize offlineServices st0 = Inl ''quota exceeded''"
  if "mode st0 = NARRATION" "narrationText st0 = ''Enter text here to generate speech...''"
  using that
  by (simp add: synthesize_def offlineServices_def refusingAI_def
      generateSingleVoice_def trim_def isWhiteSpace_def)

theorem handleGenerate_outcomes_witness:
  "generatedAudio (handleGenerate workingServices initialApp) = Some sampleAudio \<and>
   appError (handleGenerate workingServices initialApp) = None \<and>
   lastGeneratedHash (handleGenerate workingServices initialApp) = getContentHash initialApp \<and>
   generatedAudio (handleGenerate offlineServices initialApp) = None \<and>
   appError (handleGenerate offlineServices initialApp) = Some ''quota exceeded'' \<and>
   lastGeneratedHash (handleGenerate offlineServices initialApp) = []"
proof -
  have m: "mode initialApp \<noteq> TRANSCRIPTION"
    by (simp add: initialApp_def)
  have c: "codec workingServices ''QUJD'' = Inr sampleAudio"
    by (simp add: workingServices_def acceptingCodec_def)
  have off: "synthesize offlineServices initialApp = Inl ''quota exceeded''"
    by (rule initialApp_synthesize_offline) (simp_all add: initialApp_def)
  have h: "lastGeneratedHash initialApp = []"
    by (simp add: initialApp_def)
  show ?thesis
    using handleGenerate_outcomes [of initialApp workingServices]
          handleGenerate_outcomes [of initialApp offlineServices]
          m c off h initialApp_synthesize_working
    by simp
qed

text \<open>
  The claim as the specification states it fails: after a successful generation the
  document holds an artifact; a second generation whose synthesis fails leaves the
  document without artifact, so the prior artifact is not left untouched.
\<close>

theorem handleGenerate_keeps_artifact_counterexample:
  "generatedAudio (handleGenerate workingServices initialApp) = Some sampleAudio \<and>
   synthesize offlineServices (handleGenerate workingServices initialApp) =
     Inl ''quota exceeded'' \<and>
   generatedAudio (handleGenerate offlineServices (handleGenerate workingServices initialApp))
     = None \<and>
   generatedAudio (handleGenerate offlineServices (handleGenerate workingServices initialApp))
     \<noteq> generatedAudio (handleGenerate workingServices initialApp)"
proof -
  have m: "mode initialApp \<noteq> TRANSCRIPTION"
    by (simp add: initialApp_def)
  have c: "codec workingServices ''QUJD'' = Inr sampleAudio"
    by (simp add: workingServices_def acceptingCodec_def)
  have first: "handleGenerate workingServices initialApp =
      initialApp\<lparr>loading := False, appError := None, generatedAudio := Some sampleAudio,
        lastGeneratedHash := getContentHash initialApp\<rparr>"
    using m initialApp_synthesize_working c by (rule handleGenerate_succeeds)
  have m2: "mode (handleGenerate workingServices initialApp) \<noteq> TRANSCRIPTION"
    unfolding first by (simp add: initialApp_def)
  have off: "synthesize offlineServices (handleGenerate workingServices initialApp) =
      Inl ''quota exceeded''"
    unfolding first by (rule initialApp_synthesize_offline) (simp_all add: initialApp_def)
  have second: "generatedAudio
      (handleGenerate offlineServices (handleGenerate workingServices initialApp)) = None"
    using handleGenerate_synthesis_fails [OF m2 off] by simp
  show ?thesis
    using first off second by simp
qed

section \<open>Properties of the content hash and of staleness\<close>

lemma hexDigit_inj: "a < 16 \<Longrightarrow> b < 16 \<Longrightarrow> hexDigit a = hexDigit b \<Longrightarrow> a = b"
proof -
  assume a: "a < 16" and b: "b < 16" and e: "hexDigit a = hexDigit b"
  have d: "distinct ''0123456789abcdef''" by simp
  have l: "length ''0123456789abcdef'' = 16" by simp
  from e a b have "''0123456789abcdef'' ! a = ''0123456789abcdef'' ! b"
    by (simp add: hexDigit_def)
  with d l a b show "a = b"
    by (metis nth_eq_iff_index_eq)
qed

lemma hex_pair_inj:
  assumes "n < 32" "k < 32"
    and "hexDigit (n div 16) = hexDigit (k div 16)" "hexDigit n = hexDigit k"
  shows "n = k"
proof -
  have "n div 16 = k div 16"
    using assms(1,2,3) by (intro hexDigit_inj) auto
  moreover have "hexDigit (n mod 16) = hexDigit (k mod 16)"
    using assms(4) by (simp add: hexDigit_def)
  then have "n mod 16 = k mod 16"
    by (intro hexDigit_inj) auto
  ultimately show ?thesis
    by (metis div_mult_mod_eq)
qed

lemma jsonEscapeChar_unique:
  "jsonEscapeChar c @ r = jsonEscapeChar d @ r' \<Longrightarrow> c = d \<and> r = r'"
  by (auto simp: jsonEscapeChar_def split: if_splits dest: hex_pair_inj)


lemma jsonEscapeChar_hd: "\<exists>x xs. jsonEscapeChar c = x # xs \<and> x \<noteq> CHR 0x22"
  by (simp add: jsonEscapeChar_def)

lemma escaped_unique:
  "concat (map jsonEscapeChar s) @ CHR 0x22 # r = concat (map jsonEscapeChar t) @ CHR 0x22 # r'
   \<Longrightarrow> s = t \<and> r = r'"
proof (induction s arbitrary: t)
  case Nil
  show ?case
  proof (cases t)
    case Nil
    with Nil.prems show ?thesis by simp
  next
    case (Cons d ds)
    obtain x xs where "jsonEscapeChar d = x # xs" "x \<noteq> CHR 0x22"
      using jsonEscapeChar_hd by blast
    with Nil.prems Cons show ?thesis by simp
  qed
next
  case (Cons c cs)
  show ?case
  proof (cases t)
    case Nil
    obtain x xs where "jsonEscapeChar c = x # xs" "x \<noteq> CHR 0x22"
      using jsonEscapeChar_hd by blast
    with Cons.prems Nil show ?thesis by simp
  next
    case (Cons d ds)
    from Cons.prems Cons have
      "jsonEscapeChar c @ (concat (map jsonEscapeChar cs) @ CHR 0x22 # r) =
       jsonEscapeChar d @ (concat (map jsonEscapeChar ds) @ CHR 0x22 # r')"
      by simp
    then have "c = d" and
      "concat (map jsonEscapeChar cs) @ CHR 0x22 # r =
       concat (map jsonEscapeChar ds) @ CHR 0x22 # r'"
      using jsonEscapeChar_unique by blast+
    with Cons.IH Cons show ?thesis by blast
  qed
qed

lemma jsonString_unique:
  "jsonString s @ r = jsonString t @ r' \<Longrightarrow> s = t \<and> r = r'"
  using escaped_unique [of s r t r'] by (simp add: jsonString_def)

lemma jsonString_inj: "jsonString s = jsonString t \<longleftrightarrow> s = t"
  using jsonString_unique [of s "[]" t "[]"] by auto

































section \<open>Properties of the section editor\<close>

lemma sectionAction_extract_None:
  "sectionAction (ExtractSubsection start end' uuid) sec = None \<longleftrightarrow>
   start = end' \<or> trim (substring (text_of sec) start end') = []"
  by (simp add: handleExtractSubsection_def Let_def)

lemma sectionAction_extract_Some:
  "\<not> (start = end' \<or> trim (substring (text_of sec) start end') = []) \<Longrightarrow>
   sectionAction (ExtractSubsection start end' uuid) sec =
     Some (sec\<lparr>subsections := subsections sec @
       [\<lparr>id_of = uuid, name = ''Part '' @ toString (length (subsections sec) + 1),
         text_of = substring (text_of sec) start end', voice = voice sec,
         audio = None, status = Idle, error = None\<rparr>]\<rparr>)"
  by (simp add: handleExtractSubsection_def Let_def)

lemma updateSnippet_at:
  "idx < length (snippets st) \<Longrightarrow> id_of updated = id_of (snippets st ! idx) \<Longrightarrow>
   snippets (updateSnippet updated st) ! idx = updated \<and>
   length (snippets (updateSnippet updated st)) = length (snippets st)"
  by (simp add: updateSnippet_def)

text \<open>
  C3. In the editor of a section, extracting the selection from \<open>start\<close> to \<open>end'\<close>
  calls no update (the state stays as it is) exactly when \<open>start = end'\<close> or the selected
  substring of the section's text is empty once trimmed. Otherwise the section is updated
  to itself with exactly one subsection appended: its name is \<open>Part M\<close> with \<open>M\<close> one more
  than the number of subsections, its text is the selected substring, its voice is the
  section's voice, it has no audio, no error and the status idle; the text of the section
  is unchanged, and the updated section replaces the section in the list of the
  application.
\<close>

theorem extract_subsection:
  "(sectionAction (ExtractSubsection start end' uuid) sec = None \<longleftrightarrow>
      start = end' \<or> trim (substring (text_of sec) start end') = []) \<and>
   (sectionAction (ExtractSubsection start end' uuid) sec = None \<and> idx < length (snippets st) \<and>
      snippets st ! idx = sec \<longrightarrow>
      editSection idx (ExtractSubsection start end' uuid) st = Some st) \<and>
   (\<not> (start = end' \<or> trim (substring (text_of sec) start end') = []) \<longrightarrow>
      (\<exists>parent. sectionAction (ExtractSubsection start end' uuid) sec = Some parent \<and>
         subsections parent = subsections sec @
           [\<lparr>id_of = uuid, name = ''Part '' @ toString (length (subsections sec) + 1),
             text_of = substring (text_of sec) start end', voice = voice sec,
             audio = None, status = Idle, error = None\<rparr>] \<and>
         text_of parent = text_of sec \<and>
         parent = sec\<lparr>subsections := subsections parent\<rparr> \<and>
         (idx < length (snippets st) \<and> snippets st ! idx = sec \<longrightarrow>
            (\<exists>st'. editSection idx (ExtractSubsection start end' uuid) st = Some st' \<and>
               length (snippets st') = length (snippets st) \<and>
               snippets st' ! idx = parent))))"
proof (intro conjI impI)
  show "sectionAction (ExtractSubsection start end' uuid) sec = None \<longleftrightarrow>
      start = end' \<or> trim (substring (text_of sec) start end') = []"
    by (rule sectionAction_extract_None)
next
  assume "sectionAction (ExtractSubsection start end' uuid) sec = None \<and>
      idx < length (snippets st) \<and> snippets st ! idx = sec"
  then show "editSection idx (ExtractSubsection start end' uuid) st = Some st"
    by (simp add: editSection_def)
next
  let ?parent = "sec\<lparr>subsections := subsections sec @
       [\<lparr>id_of = uuid, name = ''Part '' @ toString (length (subsections sec) + 1),
         text_of = substring (text_of sec) start end', voice = voice sec,
         audio = None, status = Idle, error = None\<rparr>]\<rparr>"
  assume ok: "\<not> (start = end' \<or> trim (substring (text_of sec) start end') = [])"
  then have p: "sectionAction (ExtractSubsection start end' uuid) sec = Some ?parent"
    by (rule sectionAction_extract_Some)
  have app: "idx < length (snippets st) \<and> snippets st ! idx = sec \<longrightarrow>
            (\<exists>st'. editSection idx (ExtractSubsection start end' uuid) st = Some st' \<and>
               length (snippets st') = length (snippets st) \<and>
               snippets st' ! idx = ?parent)"
  proof
    assume i: "idx < length (snippets st) \<and> snippets st ! idx = sec"
    then have "editSection idx (ExtractSubsection start end' uuid) st =
        Some (updateSnippet ?parent st)"
      using p by (simp add: editSection_def)
    moreover have "snippets (updateSnippet ?parent st) ! idx = ?parent \<and>
        length (snippets (updateSnippet ?parent st)) = length (snippets st)"
      using i by (intro updateSnippet_at) simp_all
    ultimately show "\<exists>st'. editSection idx (ExtractSubsection start end' uuid) st = Some st' \<and>
               length (snippets st') = length (snippets st) \<and>
               snippets st' ! idx = ?parent"
      by simp
  qed
  show "\<exists>parent. sectionAction (ExtractSubsection start end' uuid) sec = Some parent \<and>
         subsections parent = subsections sec @
           [\<lparr>id_of = uuid, name = ''Part '' @ toString (length (subsections sec) + 1),
             text_of = substring (text_of sec) start end', voice = voice sec,
             audio = None, status = Idle, error = None\<rparr>] \<and>
         text_of parent = text_of sec \<and>
         parent = sec\<lparr>subsections := subsections parent\<rparr> \<and>
         (idx < length (snippets st) \<and> snippets st ! idx = sec \<longrightarrow>
            (\<exists>st'. editSection idx (ExtractSubsection start end' uuid) st = Some st' \<and>
               length (snippets st') = length (snippets st) \<and>
               snippets st' ! idx = parent))"
    using p app by (intro exI [of _ ?parent]) simp
qed

theorem extract_subsection_witness:
  "sectionAction (ExtractSubsection 3 3 ''u1'') (sampleSection\<lparr>text_of := ''Hello world''\<rparr>)
     = None \<and>
   sectionAction (ExtractSubsection 5 6 ''u1'') (sampleSection\<lparr>text_of := ''Hello world''\<rparr>)
     = None \<and>
   editSection 0 (ExtractSubsection 5 6 ''u1'')
     (initialApp\<lparr>snippets := [sampleSection\<lparr>text_of := ''Hello world''\<rparr>]\<rparr>) =
     Some (initialApp\<lparr>snippets := [sampleSection\<lparr>text_of := ''Hello world''\<rparr>]\<rparr>) \<and>
   sectionAction (ExtractSubsection 0 5 ''u1'') (sampleSection\<lparr>text_of := ''Hello world''\<rparr>)
     = Some (sampleSection\<lparr>text_of := ''Hello world'',
          subsections := [\<lparr>id_of = ''u1'', name = ''Part 1'', text_of = ''Hello'',
             voice = Kore, audio = None, status = Idle, error = None\<rparr>]\<rparr>)"
proof -
  let ?sec = "sampleSection\<lparr>text_of := ''Hello world''\<rparr>"
  let ?st = "initialApp\<lparr>snippets := [?sec]\<rparr>"
  have t: "text_of ?sec = ''Hello world''" "subsections ?sec = []" "voice ?sec = Kore"
    by (simp_all add: sampleSection_def)
  have a: "(3::nat) = 3 \<or> trim (substring (text_of ?sec) 3 3) = []"
    by simp
  have b: "(5::nat) = 6 \<or> trim (substring (text_of ?sec) 5 6) = []"
    unfolding t by code_simp
  have c: "\<not> ((0::nat) = 5 \<or> trim (substring (text_of ?sec) 0 5) = [])"
    unfolding t by code_simp
  have d: "substring (text_of ?sec) 0 5 = ''Hello''" "toString (length (subsections ?sec) + 1) = ''1''"
    unfolding t by code_simp+
  have i: "0 < length (snippets ?st) \<and> snippets ?st ! 0 = ?sec"
    by simp
  from extract_subsection [of 3 3 "''u1''" ?sec 0 ?st] a
  have 1: "sectionAction (ExtractSubsection 3 3 ''u1'') ?sec = None"
    by blast
  from extract_subsection [of 5 6 "''u1''" ?sec 0 ?st] b i
  have 2: "sectionAction (ExtractSubsection 5 6 ''u1'') ?sec = None"
    and 3: "editSection 0 (ExtractSubsection 5 6 ''u1'') ?st = Some ?st"
    by blast+
  from extract_subsection [of 0 5 "''u1''" ?sec 0 ?st] c
  obtain parent where p: "sectionAction (ExtractSubsection 0 5 ''u1'') ?sec = Some parent"
    and q: "subsections parent = subsections ?sec @
           [\<lparr>id_of = ''u1'', name = ''Part '' @ toString (length (subsections ?sec) + 1),
             text_of = substring (text_of ?sec) 0 5, voice = voice ?sec,
             audio = None, status = Idle, error = None\<rparr>]"
    and r: "parent = ?sec\<lparr>subsections := subsections parent\<rparr>"
    by blast
  from q have "subsections parent = [\<lparr>id_of = ''u1'', name = ''Part 1'', text_of = ''Hello'',
             voice = Kore, audio = None, status = Idle, error = None\<rparr>]"
    unfolding d by (simp add: t)
  with r have "parent = ?sec\<lparr>subsections := [\<lparr>id_of = ''u1'', name = ''Part 1'',
             text_of = ''Hello'', voice = Kore, audio = None, status = Idle, error = None\<rparr>]\<rparr>"
    by simp
  with p 1 2 3 show ?thesis
    by simp
qed

section \<open>Properties of per-node generation\<close>

lemma nodeOk_mergeUpdate: "nodeOk (mergeUpdate u sub) = nodeOk sub"
  by (cases u) (simp_all add: nodeOk_def)

lemma nodeOk_fields:
  "nodeOk (n\<lparr>name := x\<rparr>) = nodeOk n"
  "nodeOk (n\<lparr>voice := v\<rparr>) = nodeOk n"
  "nodeOk (n\<lparr>text_of := t\<rparr>) = nodeOk n"
  "nodeOk (s\<lparr>subsections := l\<rparr>) = nodeOk s"
  by (simp_all add: nodeOk_def)

lemma nodeOk_Idle: "status n = Idle \<Longrightarrow> nodeOk n"
  by (simp add: nodeOk_def)

lemma secOk_sectionAction: "secOk s \<Longrightarrow> sectionAction act s = Some u \<Longrightarrow> secOk u"
  by (cases act)
     (auto simp: handleExtractSubsection_def updateSubsection_def deleteSubsection_def
        secOk_def nodeOk_mergeUpdate nodeOk_fields nodeOk_Idle list_all_iff Let_def
        split: if_splits)

lemma treeOk_generateSnippet:
  "treeOk (snippets (app w)) \<Longrightarrow> treeOk (snippets (app (generateSnippet tok i w)))"
  by (auto simp: generateSnippet_def setSnippets_def treeOk_def secOk_def nodeOk_def
      list_all_iff split: option.splits)

lemma treeOk_generateSubsection:
  "treeOk (snippets (app w)) \<Longrightarrow> treeOk (snippets (app (generateSubsection tok i j w)))"
  by (auto simp: generateSubsection_def setSnippets_def treeOk_def secOk_def nodeOk_def
      list_all_iff split: option.splits)

lemma treeOk_applyOutcome: "treeOk sns \<Longrightarrow> treeOk (applyOutcome T outcome sns)"
  by (cases T; cases outcome)
     (auto simp: treeOk_def secOk_def nodeOk_def list_all_iff)

lemma treeOk_settle:
  "settle tok sv w = Some w' \<Longrightarrow> treeOk (snippets (app w)) \<Longrightarrow> treeOk (snippets (app w'))"
  by (auto simp: settle_def setSnippets_def treeOk_applyOutcome split: option.splits)

lemma treeOk_addSnippet:
  "treeOk (snippets st) \<Longrightarrow> treeOk (snippets (addSnippetFromSelection ta uuid st))"
  by (auto simp: addSnippetFromSelection_def treeOk_def secOk_def nodeOk_def Let_def
      split: option.splits)

lemma treeOk_removeSnippet: "treeOk (snippets st) \<Longrightarrow> treeOk (snippets (removeSnippet i st))"
  by (simp add: removeSnippet_def treeOk_def list_all_iff)

lemma treeOk_editSection:
  "editSection idx act st = Some st' \<Longrightarrow> treeOk (snippets st) \<Longrightarrow> treeOk (snippets st')"
proof -
  assume e: "editSection idx act st = Some st'" and ok: "treeOk (snippets st)"
  from e have i: "idx < length (snippets st)"
    by (simp add: editSection_def split: if_splits)
  with ok have s: "secOk (snippets st ! idx)"
    by (simp add: treeOk_def list_all_length)
  show ?thesis
  proof (cases "sectionAction act (snippets st ! idx)")
    case None
    with e i ok show ?thesis by (simp add: editSection_def)
  next
    case (Some u)
    with s have "secOk u" by (blast intro: secOk_sectionAction)
    moreover from e i Some have "st' = updateSnippet u st" by (simp add: editSection_def)
    ultimately show ?thesis
      using ok by (auto simp: updateSnippet_def treeOk_def list_all_iff)
  qed
qed

lemma snippets_applyEdit: "snippets (applyEdit e st) = snippets st"
  by (cases e) simp_all

lemma snippets_handleGenerate: "snippets (handleGenerate sv st) = snippets st"
  by (simp add: handleGenerate_def generationFailed_def Let_def split: option.splits sum.splits)

lemma snippets_docStep: "snippets (fst (docStep ev (st, h))) = snippets st"
  by (cases ev) (simp_all add: snippets_applyEdit snippets_handleGenerate switchMode_def)

lemma treeOk_step:
  "step ev w = Some w' \<Longrightarrow> treeOk (snippets (app w)) \<Longrightarrow> treeOk (snippets (app w'))"
proof (cases ev)
  case (GenerateSnippet tok i)
  then show "step ev w = Some w' \<Longrightarrow> treeOk (snippets (app w)) \<Longrightarrow> ?thesis"
    by (auto simp: treeOk_generateSnippet split: if_splits)
next
  case (GenerateSubsection tok i j)
  then show "step ev w = Some w' \<Longrightarrow> treeOk (snippets (app w)) \<Longrightarrow> ?thesis"
    by (auto simp: treeOk_generateSubsection split: if_splits)
next
  case (Settle tok sv)
  then show "step ev w = Some w' \<Longrightarrow> treeOk (snippets (app w)) \<Longrightarrow> ?thesis"
    by (auto intro: treeOk_settle)
next
  case (AddSnippet a b u)
  then show "step ev w = Some w' \<Longrightarrow> treeOk (snippets (app w)) \<Longrightarrow> ?thesis"
    by (auto simp: treeOk_addSnippet)
next
  case (RemoveSnippet i)
  then show "step ev w = Some w' \<Longrightarrow> treeOk (snippets (app w)) \<Longrightarrow> ?thesis"
    by (auto simp: treeOk_removeSnippet)
next
  case ClearAll
  then show "step ev w = Some w' \<Longrightarrow> treeOk (snippets (app w)) \<Longrightarrow> ?thesis"
    by (auto simp: treeOk_def)
next
  case (SectionEdit idx act)
  then show "step ev w = Some w' \<Longrightarrow> treeOk (snippets (app w)) \<Longrightarrow> ?thesis"
    by (auto intro: treeOk_editSection split: option.splits)
next
  case (Document d)
  then show "step ev w = Some w' \<Longrightarrow> treeOk (snippets (app w)) \<Longrightarrow> ?thesis"
    by (auto simp: snippets_docStep)
qed

lemma treeOk_run:
  "run evs w = Some w' \<Longrightarrow> treeOk (snippets (app w)) \<Longrightarrow> treeOk (snippets (app w'))"
proof (induction evs arbitrary: w)
  case Nil
  then show ?case by simp
next
  case (Cons ev evs)
  then obtain w1 where s: "step ev w = Some w1" and r: "run evs w1 = Some w'"
    by (auto split: option.splits)
  from treeOk_step [OF s Cons.prems(2)] r show ?case
    by (rule Cons.IH [rotated])
qed

lemma nodeClean_fields:
  "nodeClean (n\<lparr>name := x\<rparr>) = nodeClean n"
  "nodeClean (n\<lparr>voice := v\<rparr>) = nodeClean n"
  "nodeClean (n\<lparr>text_of := t\<rparr>) = nodeClean n"
  "nodeClean (s\<lparr>subsections := l\<rparr>) = nodeClean s"
  by (simp_all add: nodeClean_def)

lemma nodeClean_mergeUpdate: "nodeClean (mergeUpdate u sub) = nodeClean sub"
  by (cases u) (simp_all add: nodeClean_def)

lemma mergeUpdate_keeps:
  "id_of (mergeUpdate u sub) = id_of sub" "error (mergeUpdate u sub) = error sub"
  by (cases u; simp)+

lemma nodeClean_Idle: "status n = Idle \<Longrightarrow> nodeClean n"
  by (simp add: nodeClean_def)

lemma secClean_sectionAction: "secClean s \<Longrightarrow> sectionAction act s = Some u \<Longrightarrow> secClean u"
  by (cases act)
     (auto simp: handleExtractSubsection_def updateSubsection_def deleteSubsection_def
        secClean_def nodeClean_mergeUpdate nodeClean_fields nodeClean_Idle list_all_iff Let_def
        split: if_splits)

lemma clearAt_sectionAction: "clearAt T s \<Longrightarrow> sectionAction act s = Some u \<Longrightarrow> clearAt T u"
  by (cases act; cases T)
     (auto simp: handleExtractSubsection_def updateSubsection_def deleteSubsection_def
        mergeUpdate_keeps list_all_iff Let_def split: if_splits)

lemma list_all_map_pres:
  "list_all P xs \<Longrightarrow> (\<And>x. P x \<Longrightarrow> P (f x)) \<Longrightarrow> list_all P (map f xs)"
  by (induction xs) auto

lemma clearAt_generateSection:
  "T \<noteq> SectionTarget i \<Longrightarrow> clearAt T s \<Longrightarrow>
   clearAt T (if id_of s = i then s\<lparr>status := Generating, error := None\<rparr> else s)"
  by (cases T) auto

lemma clearAt_generateSub:
  "T \<noteq> SubsectionTarget i j \<Longrightarrow> clearAt T s \<Longrightarrow>
   clearAt T (if id_of s = i then
       s\<lparr>subsections := map (\<lambda>sub. if id_of sub = j
            then sub\<lparr>status := Generating, error := None\<rparr> else sub) (subsections s)\<rparr>
     else s)"
  by (cases T) (auto simp: list_all_iff)

lemma list_allI: "(\<And>x. x \<in> set xs \<Longrightarrow> P x) \<Longrightarrow> list_all P xs"
  by (simp add: list_all_iff)

lemma list_allD: "list_all P xs \<Longrightarrow> x \<in> set xs \<Longrightarrow> P x"
  by (simp add: list_all_iff)

lemma secClean_generateSection:
  "secClean s \<Longrightarrow> secClean (if id_of s = i then s\<lparr>status := Generating, error := None\<rparr> else s)"
  by (simp add: secClean_def nodeClean_def)

lemma list_all_map_into:
  "list_all P xs \<Longrightarrow> (\<And>x. P x \<Longrightarrow> Q (f x)) \<Longrightarrow> list_all Q (map f xs)"
  by (induction xs) auto

lemma list_all_map_all: "(\<And>x. Q (f x)) \<Longrightarrow> list_all Q (map f xs)"
  by (induction xs) auto

lemma nodeClean_generating:
  "nodeClean sub \<Longrightarrow>
   nodeClean (if id_of sub = j then sub\<lparr>status := Generating, error := None\<rparr> else sub)"
  by (simp add: nodeClean_def)

lemma secClean_generateSub:
  assumes "secClean s"
  shows "secClean (if id_of s = i then
       s\<lparr>subsections := map (\<lambda>sub. if id_of sub = j
            then sub\<lparr>status := Generating, error := None\<rparr> else sub) (subsections s)\<rparr>
     else s)"
proof (cases "id_of s = i")
  case True
  from assms have "list_all nodeClean (subsections s)"
    by (simp add: secClean_def)
  then have "list_all nodeClean (map (\<lambda>sub. if id_of sub = j
            then sub\<lparr>status := Generating, error := None\<rparr> else sub) (subsections s))"
    by (rule list_all_map_into) (rule nodeClean_generating)
  with assms True show ?thesis
    by (simp add: secClean_def nodeClean_fields)
next
  case False
  with assms show ?thesis by simp
qed

lemma clearAt_generateSection_new:
  "clearAt (SectionTarget i)
     (if id_of s = i then s\<lparr>status := Generating, error := None\<rparr> else s)"
  by simp

lemma clearAt_generateSub_new:
  "clearAt (SubsectionTarget i j)
     (if id_of s = i then
       s\<lparr>subsections := map (\<lambda>sub. if id_of sub = j
            then sub\<lparr>status := Generating, error := None\<rparr> else sub) (subsections s)\<rparr>
     else s)"
proof -
  have "list_all (\<lambda>sub. id_of sub = j \<longrightarrow> error sub = None)
     (map (\<lambda>sub. if id_of sub = j
            then sub\<lparr>status := Generating, error := None\<rparr> else sub) (subsections s))"
    by (rule list_all_map_all) simp
  then show ?thesis by simp
qed

lemma exclusiveInv_parts:
  "exclusiveInv w \<Longrightarrow> treeClean (snippets (app w))"
  "exclusiveInv w \<Longrightarrow> c \<in> set (inflight w) \<Longrightarrow>
     list_all (clearAt (call_target c)) (snippets (app w))"
  "exclusiveInv w \<Longrightarrow> distinct (map call_target (inflight w))"
  by (simp_all add: exclusiveInv_def list_all_iff)

lemma exclusiveInv_generateSnippet:
  assumes "exclusiveInv w" and "list_all (\<lambda>c. call_target c \<noteq> SectionTarget i) (inflight w)"
  shows "exclusiveInv (generateSnippet tok i w)"
proof (cases "find (\<lambda>s. id_of s = i) (snippets (app w))")
  case None
  with assms(1) show ?thesis by (simp add: generateSnippet_def)
next
  case (Some sn)
  let ?f = "\<lambda>s. if id_of s = i then s\<lparr>status := Generating, error := None\<rparr> else s"
  have w': "snippets (app (generateSnippet tok i w)) = map ?f (snippets (app w))"
    "inflight (generateSnippet tok i w) =
       inflight w @ [Call tok (SectionTarget i) (text_of sn) (voice sn)]"
    using Some by (simp_all add: generateSnippet_def setSnippets_def)
  have a: "treeClean (map ?f (snippets (app w)))"
    unfolding treeClean_def
    using exclusiveInv_parts(1) [OF assms(1), unfolded treeClean_def]
    by (rule list_all_map_pres) (rule secClean_generateSection)
  have b: "list_all (clearAt (call_target c)) (map ?f (snippets (app w)))"
    if "c \<in> set (inflight w)" for c
  proof -
    from assms(2) that have ne: "call_target c \<noteq> SectionTarget i"
      by (rule list_allD)
    from assms(1) that have "list_all (clearAt (call_target c)) (snippets (app w))"
      by (rule exclusiveInv_parts(2))
    then show ?thesis
      by (rule list_all_map_pres) (rule clearAt_generateSection [OF ne])
  qed
  have b': "list_all (\<lambda>c. list_all (clearAt (call_target c)) (map ?f (snippets (app w))))
              (inflight w)"
    by (rule list_allI) (rule b)
  have c: "list_all (clearAt (SectionTarget i)) (map ?f (snippets (app w)))"
    by (rule list_allI) (simp only: list.set_map image_iff, blast intro: clearAt_generateSection_new)
  have "SectionTarget i \<notin> set (map call_target (inflight w))"
    using assms(2) by (auto simp: list_all_iff)
  with exclusiveInv_parts(3) [OF assms(1)]
  have d: "distinct (map call_target (inflight w) @ [SectionTarget i])"
    by simp
  show ?thesis
    unfolding exclusiveInv_def w' using d by (simp add: a b' c)
qed

lemma exclusiveInv_generateSubsection:
  assumes "exclusiveInv w" and "list_all (\<lambda>c. call_target c \<noteq> SubsectionTarget i j) (inflight w)"
  shows "exclusiveInv (generateSubsection tok i j w)"
proof (cases "find (\<lambda>s. id_of s = i) (snippets (app w))")
  case None
  with assms(1) show ?thesis by (simp add: generateSubsection_def)
next
  case (Some sn)
  show ?thesis
  proof (cases "find (\<lambda>sub. id_of sub = j) (subsections sn)")
    case None
    with Some assms(1) show ?thesis by (simp add: generateSubsection_def)
  next
    case (Some sb)
    let ?f = "\<lambda>s. if id_of s = i then
       s\<lparr>subsections := map (\<lambda>sub. if id_of sub = j
            then sub\<lparr>status := Generating, error := None\<rparr> else sub) (subsections s)\<rparr>
     else s"
    have w': "snippets (app (generateSubsection tok i j w)) = map ?f (snippets (app w))"
      "inflight (generateSubsection tok i j w) =
         inflight w @ [Call tok (SubsectionTarget i j) (text_of sb) (voice sb)]"
      using Some \<open>find (\<lambda>s. id_of s = i) (snippets (app w)) = Some sn\<close>
      by (simp_all add: generateSubsection_def setSnippets_def)
    have a: "treeClean (map ?f (snippets (app w)))"
      unfolding treeClean_def
      using exclusiveInv_parts(1) [OF assms(1), unfolded treeClean_def]
      by (rule list_all_map_pres) (rule secClean_generateSub)
    have b: "list_all (clearAt (call_target c)) (map ?f (snippets (app w)))"
      if "c \<in> set (inflight w)" for c
    proof -
      from assms(2) that have ne: "call_target c \<noteq> SubsectionTarget i j"
        by (rule list_allD)
      from assms(1) that have "list_all (clearAt (call_target c)) (snippets (app w))"
        by (rule exclusiveInv_parts(2))
      then show ?thesis
        by (rule list_all_map_pres) (rule clearAt_generateSub [OF ne])
    qed
    have b': "list_all (\<lambda>c. list_all (clearAt (call_target c)) (map ?f (snippets (app w))))
                (inflight w)"
      by (rule list_allI) (rule b)
    have c: "list_all (clearAt (SubsectionTarget i j)) (map ?f (snippets (app w)))"
      by (rule list_allI) (simp only: list.set_map image_iff, blast intro: clearAt_generateSub_new)
    have "SubsectionTarget i j \<notin> set (map call_target (inflight w))"
      using assms(2) by (auto simp: list_all_iff)
    with exclusiveInv_parts(3) [OF assms(1)]
    have d: "distinct (map call_target (inflight w) @ [SubsectionTarget i j])"
      by simp
    show ?thesis
      unfolding exclusiveInv_def w' using d by (simp add: a b' c)
  qed
qed

lemma treeClean_applyOutcome:
  "list_all (clearAt T) sns \<Longrightarrow> treeClean sns \<Longrightarrow> treeClean (applyOutcome T outcome sns)"
  by (cases T; cases outcome)
     (auto simp: treeClean_def secClean_def nodeClean_def list_all_iff)

lemma clearAt_applyOutcome:
  "T' \<noteq> T \<Longrightarrow> list_all (clearAt T') sns \<Longrightarrow> list_all (clearAt T') (applyOutcome T outcome sns)"
  by (cases T; cases outcome; cases T') (auto simp: list_all_iff)

lemma distinct_map_neq:
  "distinct (map f xs) \<Longrightarrow> x \<in> set xs \<Longrightarrow> y \<in> set xs \<Longrightarrow> x \<noteq> y \<Longrightarrow> f x \<noteq> f y"
  by (meson distinct_map inj_onD)

lemma exclusiveInv_settle:
  assumes "settle tok sv w = Some w'" and "exclusiveInv w"
  shows "exclusiveInv w'"
proof -
  from assms(1) obtain c where f: "find (\<lambda>c. call_token c = tok) (inflight w) = Some c"
    by (auto simp: settle_def split: option.splits)
  then have cin: "c \<in> set (inflight w)" and ctok: "call_token c = tok"
    by (auto simp: find_Some_iff)
  let ?o = "processGeneration sv (call_text c) (call_voice c)"
  from assms(1) f have w': "snippets (app w') = applyOutcome (call_target c) ?o (snippets (app w))"
    "inflight w' = filter (\<lambda>c. call_token c \<noteq> tok) (inflight w)"
    by (auto simp: settle_def setSnippets_def)
  from assms(2) cin have "list_all (clearAt (call_target c)) (snippets (app w))"
    by (simp add: exclusiveInv_def list_all_iff)
  with assms(2) have a: "treeClean (snippets (app w'))"
    unfolding w' by (intro treeClean_applyOutcome) (simp_all add: exclusiveInv_def)
  have b: "list_all (clearAt (call_target c')) (snippets (app w'))"
    if "c' \<in> set (inflight w')" for c'
  proof -
    from that have c'in: "c' \<in> set (inflight w)" and "call_token c' \<noteq> tok"
      by (simp_all add: w')
    with ctok have "c' \<noteq> c" by auto
    with assms(2) c'in cin have ne: "call_target c' \<noteq> call_target c"
      by (intro distinct_map_neq [of call_target "inflight w"]) (simp_all add: exclusiveInv_def)
    from assms(2) c'in have "list_all (clearAt (call_target c')) (snippets (app w))"
      by (simp add: exclusiveInv_def list_all_iff)
    with ne show ?thesis
      unfolding w' by (rule clearAt_applyOutcome)
  qed
  have d: "distinct (map call_target (inflight w'))"
    using assms(2) unfolding w' by (simp add: exclusiveInv_def distinct_map_filter)
  show ?thesis
    unfolding exclusiveInv_def using a b d by (simp add: list_all_iff)
qed


lemma exclusiveInv_app:
  assumes "exclusiveInv w" and "treeClean (snippets st)"
    and "\<And>T. list_all (clearAt T) (snippets (app w)) \<Longrightarrow> list_all (clearAt T) (snippets st)"
  shows "exclusiveInv (w\<lparr>app := st\<rparr>)"
proof -
  have "list_all (\<lambda>c. list_all (clearAt (call_target c)) (snippets st)) (inflight w)"
  proof (rule list_allI)
    fix c assume "c \<in> set (inflight w)"
    with assms(1) have "list_all (clearAt (call_target c)) (snippets (app w))"
      by (rule exclusiveInv_parts(2))
    then show "list_all (clearAt (call_target c)) (snippets st)"
      by (rule assms(3))
  qed
  with assms(2) exclusiveInv_parts(3) [OF assms(1)] show ?thesis
    by (simp add: exclusiveInv_def)
qed

lemma list_all_filter_pres: "list_all P xs \<Longrightarrow> list_all P (filter Q xs)"
  by (induction xs) auto

lemma clearAt_fresh: "error n = None \<Longrightarrow> subsections n = [] \<Longrightarrow> clearAt T n"
  by (cases T) simp_all

lemma addSnippet_snippets:
  "snippets (addSnippetFromSelection ta u st) = snippets st \<or>
   (\<exists>n. snippets (addSnippetFromSelection ta u st) = snippets st @ [n] \<and>
        status n = Idle \<and> error n = None \<and> subsections n = [])"
  by (simp add: addSnippetFromSelection_def Let_def split: option.splits)

lemma exclusiveInv_addSnippet:
  assumes "exclusiveInv w"
  shows "exclusiveInv (w\<lparr>app := addSnippetFromSelection ta u (app w)\<rparr>)"
proof (rule exclusiveInv_app [OF assms])
  from addSnippet_snippets [of ta u "app w"] exclusiveInv_parts(1) [OF assms]
  show "treeClean (snippets (addSnippetFromSelection ta u (app w)))"
    by (auto simp: treeClean_def secClean_def nodeClean_def)
next
  fix T assume "list_all (clearAt T) (snippets (app w))"
  with addSnippet_snippets [of ta u "app w"]
  show "list_all (clearAt T) (snippets (addSnippetFromSelection ta u (app w)))"
    by (auto simp: clearAt_fresh)
qed

lemma exclusiveInv_removeSnippet:
  assumes "exclusiveInv w"
  shows "exclusiveInv (w\<lparr>app := removeSnippet i (app w)\<rparr>)"
proof (rule exclusiveInv_app [OF assms])
  from exclusiveInv_parts(1) [OF assms]
  show "treeClean (snippets (removeSnippet i (app w)))"
    by (simp add: removeSnippet_def treeClean_def list_all_filter_pres)
next
  fix T assume "list_all (clearAt T) (snippets (app w))"
  then show "list_all (clearAt T) (snippets (removeSnippet i (app w)))"
    by (simp add: removeSnippet_def list_all_filter_pres)
qed

lemma exclusiveInv_clearAll:
  assumes "exclusiveInv w"
  shows "exclusiveInv (w\<lparr>app := (app w)\<lparr>snippets := []\<rparr>\<rparr>)"
  by (rule exclusiveInv_app [OF assms]) (simp_all add: treeClean_def)

lemma list_all_replace:
  "list_all P xs \<Longrightarrow> P u \<Longrightarrow> list_all P (map (\<lambda>s. if id_of s = k then u else s) xs)"
  by (induction xs) auto

lemma exclusiveInv_editSection:
  assumes "exclusiveInv w" and "editSection idx act (app w) = Some st"
  shows "exclusiveInv (w\<lparr>app := st\<rparr>)"
proof -
  from assms(2) have i: "idx < length (snippets (app w))"
    by (simp add: editSection_def split: if_splits)
  then have mem: "snippets (app w) ! idx \<in> set (snippets (app w))"
    by simp
  show ?thesis
  proof (cases "sectionAction act (snippets (app w) ! idx)")
    case None
    with assms(2) i have "st = app w" by (simp add: editSection_def)
    with assms(1) show ?thesis by simp
  next
    case (Some u)
    with assms(2) i have st: "snippets st =
        map (\<lambda>s. if id_of s = id_of u then u else s) (snippets (app w))"
      by (auto simp: editSection_def updateSnippet_def)
    show ?thesis
    proof (rule exclusiveInv_app [OF assms(1)])
      from exclusiveInv_parts(1) [OF assms(1)] mem
      have "secClean (snippets (app w) ! idx)"
        unfolding treeClean_def by (rule list_allD)
      then have "secClean u" using Some by (rule secClean_sectionAction)
      with exclusiveInv_parts(1) [OF assms(1)] show "treeClean (snippets st)"
        unfolding st treeClean_def by (rule list_all_replace)
    next
      fix T assume a: "list_all (clearAt T) (snippets (app w))"
      from a mem have "clearAt T (snippets (app w) ! idx)"
        by (rule list_allD)
      then have "clearAt T u" using Some by (rule clearAt_sectionAction)
      with a show "list_all (clearAt T) (snippets st)"
        unfolding st by (rule list_all_replace)
    qed
  qed
qed

lemma exclusiveInv_document:
  assumes "exclusiveInv w"
  shows "exclusiveInv (w\<lparr>app := fst (docStep ev (app w, None))\<rparr>)"
  by (rule exclusiveInv_app [OF assms])
     (simp_all add: snippets_docStep exclusiveInv_parts(1) [OF assms])

lemma exclusiveInv_step:
  assumes "step ev w = Some w'" and "allowed ev w" and "exclusiveInv w"
  shows "exclusiveInv w'"
proof (cases ev)
  case (GenerateSnippet tok i)
  with assms show ?thesis
    by (auto simp: exclusiveInv_generateSnippet split: if_splits)
next
  case (GenerateSubsection tok i j)
  with assms show ?thesis
    by (auto simp: exclusiveInv_generateSubsection split: if_splits)
next
  case (Settle tok sv)
  with assms show ?thesis
    by (auto intro: exclusiveInv_settle)
next
  case (AddSnippet a b u)
  with assms show ?thesis
    by (auto simp: exclusiveInv_addSnippet)
next
  case (RemoveSnippet i)
  with assms show ?thesis
    by (auto simp: exclusiveInv_removeSnippet)
next
  case ClearAll
  with assms show ?thesis
    by (auto simp: exclusiveInv_clearAll)
next
  case (SectionEdit idx act)
  with assms show ?thesis
    by (auto intro: exclusiveInv_editSection split: option.splits)
next
  case (Document d)
  with assms show ?thesis
    by (auto simp: exclusiveInv_document)
qed

lemma exclusiveInv_run:
  "run evs w = Some w' \<Longrightarrow> exclusive evs w \<Longrightarrow> exclusiveInv w \<Longrightarrow> exclusiveInv w'"
proof (induction evs arbitrary: w)
  case Nil
  then show ?case by simp
next
  case (Cons ev evs)
  then obtain w1 where s: "step ev w = Some w1" and r: "run evs w1 = Some w'"
    by (auto split: option.splits)
  from Cons.prems(2) s have al: "allowed ev w" and ex: "exclusive evs w1"
    by simp_all
  from exclusiveInv_step [OF s al Cons.prems(3)] have "exclusiveInv w1" .
  with r ex show ?case
    by (rule Cons.IH)
qed

lemma exclusiveInv_initial: "exclusiveInv initialWorld"
  by (simp add: exclusiveInv_def initialWorld_def initialApp_def treeClean_def)

lemma treeOk_initial: "treeOk (snippets (app initialWorld))"
  by (simp add: initialWorld_def initialApp_def treeOk_def)

lemma artifacts_applyOutcome_Inl: "artifacts (applyOutcome T (Inl msg) sns) = artifacts sns"
proof (cases T)
  case (SectionTarget i)
  then show ?thesis by (induction sns) (simp_all add: artifacts_def)
next
  case (SubsectionTarget i j)
  have sub: "map audio (map (\<lambda>sub. if id_of sub = j
            then sub\<lparr>status := Error, error := Some msg\<rparr> else sub) subs) = map audio subs"
    for subs :: "Subsection list"
    by (induction subs) simp_all
  from SubsectionTarget show ?thesis
    by (induction sns) (simp_all add: artifacts_def sub)
qed

lemma artifacts_settle_failure:
  assumes "settle tok sv w = Some w'"
    and "find (\<lambda>c. call_token c = tok) (inflight w) = Some c"
    and "processGeneration sv (call_text c) (call_voice c) = Inl msg"
  shows "artifacts (snippets (app w')) = artifacts (snippets (app w))"
  using assms by (auto simp: settle_def setSnippets_def artifacts_applyOutcome_Inl)

text \<open>
  C2, as the code has it. In every state reached from the initial one by section edits,
  generations and settlements in any order, overlapping or not, a node whose status is
  success has an artifact and a node whose status is error has an error message. A
  settlement that fails changes no artifact: every node keeps the artifact it had right
  before the settlement. A node whose status is success has no error message in every state
  reached by a run in which the calls on one node do not overlap.
\<close>

theorem node_invariants:
  "(run evs initialWorld = Some w \<longrightarrow> treeOk (snippets (app w))) \<and>
   (run evs initialWorld = Some w \<and> exclusive evs initialWorld \<longrightarrow>
      treeClean (snippets (app w))) \<and>
   (settle tok sv w1 = Some w2 \<and>
    find (\<lambda>c. call_token c = tok) (inflight w1) = Some c \<and>
    processGeneration sv (call_text c) (call_voice c) = Inl msg \<longrightarrow>
      artifacts (snippets (app w2)) = artifacts (snippets (app w1)))"
proof (intro conjI impI)
  assume "run evs initialWorld = Some w"
  then show "treeOk (snippets (app w))"
    using treeOk_initial by (rule treeOk_run)
next
  assume "run evs initialWorld = Some w \<and> exclusive evs initialWorld"
  then have "exclusiveInv w"
    using exclusiveInv_initial exclusiveInv_run by blast
  then show "treeClean (snippets (app w))"
    by (rule exclusiveInv_parts(1))
next
  assume "settle tok sv w1 = Some w2 \<and>
    find (\<lambda>c. call_token c = tok) (inflight w1) = Some c \<and>
    processGeneration sv (call_text c) (call_voice c) = Inl msg"
  then show "artifacts (snippets (app w2)) = artifacts (snippets (app w1))"
    using artifacts_settle_failure by blast
qed

theorem node_invariants_witness:
  "run [AddSnippet 0 5 ''a'', GenerateSnippet 1 ''a'', Settle 1 workingServices] initialWorld =
     Some \<lparr>app = initialApp\<lparr>snippets :=
              [sampleSection\<lparr>audio := Some sampleAudio, status := Success\<rparr>]\<rparr>,
           inflight = []\<rparr> \<and>
   exclusive [AddSnippet 0 5 ''a'', GenerateSnippet 1 ''a'', Settle 1 workingServices]
     initialWorld \<and>
   treeOk [sampleSection\<lparr>audio := Some sampleAudio, status := Success\<rparr>] \<and>
   treeClean [sampleSection\<lparr>audio := Some sampleAudio, status := Success\<rparr>] \<and>
   settle 1 offlineServices
     \<lparr>app = initialApp\<lparr>snippets :=
              [sampleSection\<lparr>audio := Some sampleAudio, status := Generating\<rparr>]\<rparr>,
      inflight = [Call 1 (SectionTarget ''a'') ''Enter'' Kore]\<rparr> =
     Some \<lparr>app = initialApp\<lparr>snippets :=
              [sampleSection\<lparr>audio := Some sampleAudio, status := Error,
                 error := Some ''quota exceeded''\<rparr>]\<rparr>,
           inflight = []\<rparr> \<and>
   artifacts [sampleSection\<lparr>audio := Some sampleAudio, status := Error,
                 error := Some ''quota exceeded''\<rparr>] =
   artifacts [sampleSection\<lparr>audio := Some sampleAudio, status := Generating\<rparr>]"
proof -
  let ?evs = "[AddSnippet 0 5 ''a'', GenerateSnippet 1 ''a'', Settle 1 workingServices]"
  let ?w = "\<lparr>app = initialApp\<lparr>snippets :=
              [sampleSection\<lparr>audio := Some sampleAudio, status := Success\<rparr>]\<rparr>,
           inflight = []\<rparr>"
  let ?w1 = "\<lparr>app = initialApp\<lparr>snippets :=
              [sampleSection\<lparr>audio := Some sampleAudio, status := Generating\<rparr>]\<rparr>,
      inflight = [Call 1 (SectionTarget ''a'') ''Enter'' Kore]\<rparr>"
  let ?w2 = "\<lparr>app = initialApp\<lparr>snippets :=
              [sampleSection\<lparr>audio := Some sampleAudio, status := Error,
                 error := Some ''quota exceeded''\<rparr>]\<rparr>,
           inflight = []\<rparr>"
  have r: "run ?evs initialWorld = Some ?w"
    by code_simp
  have e: "exclusive ?evs initialWorld"
    by code_simp
  have s: "settle 1 offlineServices ?w1 = Some ?w2"
    by code_simp
  have f: "find (\<lambda>c. call_token c = 1) (inflight ?w1) = Some (Call 1 (SectionTarget ''a'') ''Enter'' Kore)"
    by simp
  have p: "processGeneration offlineServices ''Enter'' Kore = Inl ''quota exceeded''"
    by code_simp
  from node_invariants [of ?evs ?w 1 offlineServices ?w1 ?w2
      "Call 1 (SectionTarget ''a'') ''Enter'' Kore" "''quota exceeded''"] r e s f p
  show ?thesis
    by simp
qed

text \<open>
  With overlapping calls on one node the claim of the specification fails: two generations
  are issued for a section, the first is rejected, the second is fulfilled. The handler of
  the second writes the status and the artifact and leaves the message of the first.
\<close>

theorem overlapping_calls_counterexample:
  "run [AddSnippet 0 5 ''a'', GenerateSnippet 1 ''a'', GenerateSnippet 2 ''a'',
        Settle 1 offlineServices, Settle 2 workingServices] initialWorld =
     Some \<lparr>app = initialApp\<lparr>snippets :=
              [sampleSection\<lparr>audio := Some sampleAudio, status := Success,
                 error := Some ''quota exceeded''\<rparr>]\<rparr>,
           inflight = []\<rparr> \<and>
   status (sampleSection\<lparr>audio := Some sampleAudio, status := Success,
                 error := Some ''quota exceeded''\<rparr>) = Success \<and>
   error (sampleSection\<lparr>audio := Some sampleAudio, status := Success,
                 error := Some ''quota exceeded''\<rparr>) \<noteq> None"
  by code_simp

text \<open>
  C1. \<^verbatim>\<open>generateSnippet\<close> does not look at the text. For a section whose text is three
  spaces, and so empty once trimmed, it sets the status to generating and issues the call
  with that text; when the collaborators answer, the section gets the status success.
  \<^verbatim>\<open>generateSubsection\<close> does the same for a subsection whose text is three spaces.
\<close>

theorem generateSnippet_blank_text:
  "trim ''   '' = [] \<and>
   run [AddSnippet 0 5 ''a'', SectionEdit 0 (SetText ''   ''), GenerateSnippet 1 ''a'']
       initialWorld =
     Some \<lparr>app = initialApp\<lparr>snippets :=
              [sampleSection\<lparr>text_of := ''   '', status := Generating\<rparr>]\<rparr>,
           inflight = [Call 1 (SectionTarget ''a'') ''   '' Kore]\<rparr> \<and>
   run [AddSnippet 0 5 ''a'', SectionEdit 0 (SetText ''   ''), GenerateSnippet 1 ''a'',
        Settle 1 workingServices] initialWorld =
     Some \<lparr>app = initialApp\<lparr>snippets :=
              [sampleSection\<lparr>text_of := ''   '', audio := Some sampleAudio,
                 status := Success\<rparr>]\<rparr>,
           inflight = []\<rparr> \<and>
   run [AddSnippet 0 5 ''a'', SectionEdit 0 (ExtractSubsection 0 2 ''b''),
        SectionEdit 0 (UpdateSubsection ''b'' (UpdateText ''   '')),
        GenerateSubsection 1 ''a'' ''b''] initialWorld =
     Some \<lparr>app = initialApp\<lparr>snippets :=
              [sampleSection\<lparr>subsections :=
                 [\<lparr>id_of = ''b'', name = ''Part 1'', text_of = ''   '', voice = Kore,
                   audio = None, status = Generating, error = None\<rparr>]\<rparr>]\<rparr>,
           inflight = [Call 1 (SubsectionTarget ''a'' ''b'') ''   '' Kore]\<rparr>"
  by code_simp

lemma find_None_filter: "find P xs = None \<Longrightarrow> filter (\<lambda>x. \<not> P x) xs = xs"
  by (induction xs) (auto split: if_splits)

lemma find_append_None: "find P xs = None \<Longrightarrow> find P (xs @ ys) = find P ys"
  by (induction xs) (auto split: if_splits)

lemma generateSnippet_found:
  "find (\<lambda>s. id_of s = i) (snippets (app w)) = Some sn \<Longrightarrow>
   snippets (app (generateSnippet tok i w)) =
     map (\<lambda>s. if id_of s = i then s\<lparr>status := Generating, error := None\<rparr> else s)
       (snippets (app w)) \<and>
   inflight (generateSnippet tok i w) =
     inflight w @ [Call tok (SectionTarget i) (text_of sn) (voice sn)]"
  by (simp add: generateSnippet_def setSnippets_def)

lemma find_generating:
  "find (\<lambda>s. id_of s = i) sns = Some sn \<Longrightarrow>
   find (\<lambda>s. id_of s = i)
     (map (\<lambda>s. if id_of s = i then s\<lparr>status := Generating, error := None\<rparr> else s) sns) =
   Some (sn\<lparr>status := Generating, error := None\<rparr>)"
  by (induction sns) (auto split: if_splits)

lemma run_append:
  "run (evs @ evs') w = (case run evs w of None \<Rightarrow> None | Some w1 \<Rightarrow> run evs' w1)"
  by (induction evs arbitrary: w) (auto split: option.splits)

lemma settle_exact:
  "find (\<lambda>c. call_token c = tok) (inflight w) = Some c \<Longrightarrow>
   settle tok sv w =
     Some (w\<lparr>app := (app w)\<lparr>snippets :=
               applyOutcome (call_target c)
                 (processGeneration sv (call_text c) (call_voice c)) (snippets (app w))\<rparr>,
             inflight := filter (\<lambda>c. call_token c \<noteq> tok) (inflight w)\<rparr>)"
  by (simp add: settle_def setSnippets_def)

lemma settle_section_writes:
  assumes "find (\<lambda>c. call_token c = tok) (inflight w) = Some c"
    and "call_target c = SectionTarget i"
  shows "settle tok sv w =
     Some (w\<lparr>app := (app w)\<lparr>snippets :=
               map (\<lambda>s. if id_of s = i then
                      (case processGeneration sv (call_text c) (call_voice c) of
                         Inr a \<Rightarrow> s\<lparr>status := Success, audio := Some a\<rparr>
                       | Inl msg \<Rightarrow> s\<lparr>status := Error, error := Some msg\<rparr>)
                    else s) (snippets (app w))\<rparr>,
             inflight := filter (\<lambda>c. call_token c \<noteq> tok) (inflight w)\<rparr>)"
proof -
  have "applyOutcome (SectionTarget i) outcome sns =
      map (\<lambda>s. if id_of s = i then
                      (case outcome of
                         Inr a \<Rightarrow> s\<lparr>status := Success, audio := Some a\<rparr>
                       | Inl msg \<Rightarrow> s\<lparr>status := Error, error := Some msg\<rparr>)
                    else s) sns" for outcome and sns :: "Snippet list"
    by (cases outcome) simp_all
  with settle_exact [OF assms(1), of sv] assms(2) show ?thesis
    by simp
qed

lemma two_settled_snippets:
  "applyOutcome (SectionTarget i) o2
     (applyOutcome (SectionTarget i) o1
        (map (\<lambda>s. if id_of s = i then s\<lparr>status := Generating, error := None\<rparr> else s)
           (map (\<lambda>s. if id_of s = i then s\<lparr>status := Generating, error := None\<rparr> else s)
              sns))) =
   map (\<lambda>s. if id_of s = i then
          s\<lparr>status := (case o2 of Inr a \<Rightarrow> Success | Inl msg \<Rightarrow> Error),
            audio := (case o2 of Inr a \<Rightarrow> Some a
                      | Inl msg \<Rightarrow> (case o1 of Inr a \<Rightarrow> Some a | Inl msg \<Rightarrow> audio s)),
            error := (case o2 of Inl msg \<Rightarrow> Some msg
                      | Inr a \<Rightarrow> (case o1 of Inl msg \<Rightarrow> Some msg | Inr a \<Rightarrow> None))\<rparr>
        else s) sns"
  by (cases o1; cases o2; induction sns; simp)

lemma two_calls_world:
  assumes f: "find (\<lambda>s. id_of s = i) (snippets (app w)) = Some sn"
    and t1: "tokenFree t1 w" and t2: "tokenFree t2 w" and ne: "t1 \<noteq> t2"
  shows "run [GenerateSnippet t1 i, GenerateSnippet t2 i] w =
     Some (w\<lparr>app := (app w)\<lparr>snippets :=
          map (\<lambda>s. if id_of s = i then s\<lparr>status := Generating, error := None\<rparr> else s)
           (map (\<lambda>s. if id_of s = i then s\<lparr>status := Generating, error := None\<rparr> else s)
              (snippets (app w)))\<rparr>,
        inflight := inflight w @ [Call t1 (SectionTarget i) (text_of sn) (voice sn),
                                 Call t2 (SectionTarget i) (text_of sn) (voice sn)]\<rparr>)"
proof -
  let ?g = "\<lambda>s. if id_of s = i then s\<lparr>status := Generating, error := None\<rparr> else s"
  let ?w1 = "generateSnippet t1 i w"
  have w1: "?w1 = w\<lparr>app := (app w)\<lparr>snippets := map ?g (snippets (app w))\<rparr>,
        inflight := inflight w @ [Call t1 (SectionTarget i) (text_of sn) (voice sn)]\<rparr>"
    using f by (simp add: generateSnippet_def setSnippets_def)
  from f have f1: "find (\<lambda>s. id_of s = i) (snippets (app ?w1)) =
      Some (sn\<lparr>status := Generating, error := None\<rparr>)"
    unfolding w1 using find_generating [of i "snippets (app w)" sn] by simp
  from t2 ne have free: "tokenFree t2 ?w1"
    by (simp add: tokenFree_def w1 find_append_None)
  have w2: "generateSnippet t2 i ?w1 =
      w\<lparr>app := (app w)\<lparr>snippets := map ?g (map ?g (snippets (app w)))\<rparr>,
        inflight := inflight w @ [Call t1 (SectionTarget i) (text_of sn) (voice sn),
                                 Call t2 (SectionTarget i) (text_of sn) (voice sn)]\<rparr>"
    using f1 by (simp add: generateSnippet_def [of t2 i ?w1] setSnippets_def) (simp add: w1)
  from t1 free have "run [GenerateSnippet t1 i, GenerateSnippet t2 i] w =
      Some (generateSnippet t2 i ?w1)"
    by simp
  then show ?thesis
    unfolding w2 .
qed


lemma run_two: "step a w = Some w1 \<Longrightarrow> step b w1 = Some w2 \<Longrightarrow> run [a, b] w = Some w2"
  by simp

lemma run_append_Some:
  "run evs w = Some w1 \<Longrightarrow> run evs' w1 = r \<Longrightarrow> run (evs @ evs') w = r"
  by (simp add: run_append)

lemma two_calls_settled:
  assumes f: "find (\<lambda>s. id_of s = i) (snippets (app w)) = Some sn"
    and t1: "tokenFree t1 w" and t2: "tokenFree t2 w" and ne: "t1 \<noteq> t2"
  shows "run [GenerateSnippet t1 i, GenerateSnippet t2 i, Settle t1 sv1, Settle t2 sv2] w =
     Some (w\<lparr>app := (app w)\<lparr>snippets :=
        applyOutcome (SectionTarget i) (processGeneration sv2 (text_of sn) (voice sn))
          (applyOutcome (SectionTarget i) (processGeneration sv1 (text_of sn) (voice sn))
            (map (\<lambda>s. if id_of s = i then s\<lparr>status := Generating, error := None\<rparr> else s)
              (map (\<lambda>s. if id_of s = i then s\<lparr>status := Generating, error := None\<rparr> else s)
                (snippets (app w)))))\<rparr>\<rparr>)"
    and "run [GenerateSnippet t1 i, GenerateSnippet t2 i, Settle t2 sv2, Settle t1 sv1] w =
     Some (w\<lparr>app := (app w)\<lparr>snippets :=
        applyOutcome (SectionTarget i) (processGeneration sv1 (text_of sn) (voice sn))
          (applyOutcome (SectionTarget i) (processGeneration sv2 (text_of sn) (voice sn))
            (map (\<lambda>s. if id_of s = i then s\<lparr>status := Generating, error := None\<rparr> else s)
              (map (\<lambda>s. if id_of s = i then s\<lparr>status := Generating, error := None\<rparr> else s)
                (snippets (app w)))))\<rparr>\<rparr>)"
proof -
  let ?c1 = "Call t1 (SectionTarget i) (text_of sn) (voice sn)"
  let ?c2 = "Call t2 (SectionTarget i) (text_of sn) (voice sn)"
  let ?gg = "map (\<lambda>s. if id_of s = i then s\<lparr>status := Generating, error := None\<rparr> else s)
              (map (\<lambda>s. if id_of s = i then s\<lparr>status := Generating, error := None\<rparr> else s)
                (snippets (app w)))"
  let ?w2 = "w\<lparr>app := (app w)\<lparr>snippets := ?gg\<rparr>, inflight := inflight w @ [?c1, ?c2]\<rparr>"
  from t1 t2 have p1: "find (\<lambda>c. call_token c = t1) (inflight w) = None"
    and p2: "find (\<lambda>c. call_token c = t2) (inflight w) = None"
    by (simp_all add: tokenFree_def)
  have r: "run [GenerateSnippet t1 i, GenerateSnippet t2 i] w = Some ?w2"
    using f t1 t2 ne by (rule two_calls_world)
  have k1: "filter (\<lambda>c. call_token c \<noteq> t1) (inflight w) = inflight w"
    and k2: "filter (\<lambda>c. call_token c \<noteq> t2) (inflight w) = inflight w"
    using find_None_filter [OF p1] find_None_filter [OF p2] by simp_all
  have a1: "find (\<lambda>c. call_token c = t1) (inflight ?w2) = Some ?c1"
    by (simp add: find_append_None [OF p1])
  have a2: "find (\<lambda>c. call_token c = t2) (inflight ?w2) = Some ?c2"
    using ne by (simp add: find_append_None [OF p2])
  let ?o1 = "processGeneration sv1 (text_of sn) (voice sn)"
  let ?o2 = "processGeneration sv2 (text_of sn) (voice sn)"
  let ?w3 = "w\<lparr>app := (app w)\<lparr>snippets := applyOutcome (SectionTarget i) ?o1 ?gg\<rparr>,
               inflight := inflight w @ [?c2]\<rparr>"
  let ?w3' = "w\<lparr>app := (app w)\<lparr>snippets := applyOutcome (SectionTarget i) ?o2 ?gg\<rparr>,
               inflight := inflight w @ [?c1]\<rparr>"
  have s1: "settle t1 sv1 ?w2 = Some ?w3"
    using settle_exact [OF a1, of sv1] ne by (simp add: k1)
  have s2: "settle t2 sv2 ?w2 = Some ?w3'"
    using settle_exact [OF a2, of sv2] ne by (simp add: k2)
  have b2: "find (\<lambda>c. call_token c = t2) (inflight ?w3) = Some ?c2"
    by (simp add: find_append_None [OF p2])
  have b1: "find (\<lambda>c. call_token c = t1) (inflight ?w3') = Some ?c1"
    by (simp add: find_append_None [OF p1])
  have e2: "settle t2 sv2 ?w3 =
      Some (w\<lparr>app := (app w)\<lparr>snippets :=
          applyOutcome (SectionTarget i) ?o2 (applyOutcome (SectionTarget i) ?o1 ?gg)\<rparr>\<rparr>)"
    using settle_exact [OF b2, of sv2] by (simp add: k2)
  have e1: "settle t1 sv1 ?w3' =
      Some (w\<lparr>app := (app w)\<lparr>snippets :=
          applyOutcome (SectionTarget i) ?o1 (applyOutcome (SectionTarget i) ?o2 ?gg)\<rparr>\<rparr>)"
    using settle_exact [OF b1, of sv1] by (simp add: k1)
  have "run [Settle t1 sv1, Settle t2 sv2] ?w2 =
      Some (w\<lparr>app := (app w)\<lparr>snippets :=
        applyOutcome (SectionTarget i) ?o2 (applyOutcome (SectionTarget i) ?o1 ?gg)\<rparr>\<rparr>)"
    by (rule run_two) (simp only: step.simps s1, simp only: step.simps e2)
  with r have "run ([GenerateSnippet t1 i, GenerateSnippet t2 i] @
        [Settle t1 sv1, Settle t2 sv2]) w =
      Some (w\<lparr>app := (app w)\<lparr>snippets :=
        applyOutcome (SectionTarget i) ?o2 (applyOutcome (SectionTarget i) ?o1 ?gg)\<rparr>\<rparr>)"
    by (rule run_append_Some)
  then show "run [GenerateSnippet t1 i, GenerateSnippet t2 i, Settle t1 sv1, Settle t2 sv2] w =
     Some (w\<lparr>app := (app w)\<lparr>snippets :=
        applyOutcome (SectionTarget i) ?o2 (applyOutcome (SectionTarget i) ?o1 ?gg)\<rparr>\<rparr>)"
    by (simp only: append.simps)
  have "run [Settle t2 sv2, Settle t1 sv1] ?w2 =
      Some (w\<lparr>app := (app w)\<lparr>snippets :=
        applyOutcome (SectionTarget i) ?o1 (applyOutcome (SectionTarget i) ?o2 ?gg)\<rparr>\<rparr>)"
    by (rule run_two) (simp only: step.simps s2, simp only: step.simps e1)
  with r have "run ([GenerateSnippet t1 i, GenerateSnippet t2 i] @
        [Settle t2 sv2, Settle t1 sv1]) w =
      Some (w\<lparr>app := (app w)\<lparr>snippets :=
        applyOutcome (SectionTarget i) ?o1 (applyOutcome (SectionTarget i) ?o2 ?gg)\<rparr>\<rparr>)"
    by (rule run_append_Some)
  then show "run [GenerateSnippet t1 i, GenerateSnippet t2 i, Settle t2 sv2, Settle t1 sv1] w =
     Some (w\<lparr>app := (app w)\<lparr>snippets :=
        applyOutcome (SectionTarget i) ?o1 (applyOutcome (SectionTarget i) ?o2 ?gg)\<rparr>\<rparr>)"
    by (simp only: append.simps)
qed

text \<open>
  C9, as the code has it. A call in flight for a section settles on its own, whatever else
  is in flight: the collaborators answer for the text and the voice it was issued with, and
  in every section with its identifier the handler writes the status success and the
  artifact, or the status error and the message, and no other field. When two calls are
  issued for the section \<open>i\<close>, with the tokens \<open>t1\<close> and \<open>t2\<close>, both orders of settlement
  are possible. After the two settlements the status is the one the call that settled last
  wrote, and so is the field written with it; the other field is what the call that settled
  first left: the artifact of an earlier success under a later failure (the old artifact
  when both failed), the message of an earlier failure under a later success (no message
  when both succeeded). Nothing else in the state differs from the state before the two
  calls.
\<close>

theorem last_resolver_wins:
  "(find (\<lambda>c. call_token c = tok) (inflight w0) = Some c \<and>
    call_target c = SectionTarget i0 \<longrightarrow>
      settle tok sv w0 =
        Some (w0\<lparr>app := (app w0)\<lparr>snippets :=
               map (\<lambda>s. if id_of s = i0 then
                      (case processGeneration sv (call_text c) (call_voice c) of
                         Inr a \<Rightarrow> s\<lparr>status := Success, audio := Some a\<rparr>
                       | Inl msg \<Rightarrow> s\<lparr>status := Error, error := Some msg\<rparr>)
                    else s) (snippets (app w0))\<rparr>,
             inflight := filter (\<lambda>c. call_token c \<noteq> tok) (inflight w0)\<rparr>)) \<and>
   (find (\<lambda>s. id_of s = i) (snippets (app w)) = Some sn \<and>
    tokenFree t1 w \<and> tokenFree t2 w \<and> t1 \<noteq> t2 \<and>
    processGeneration sv1 (text_of sn) (voice sn) = o1 \<and>
    processGeneration sv2 (text_of sn) (voice sn) = o2 \<longrightarrow>
      run [GenerateSnippet t1 i, GenerateSnippet t2 i, Settle t1 sv1, Settle t2 sv2] w =
        Some (w\<lparr>app := (app w)\<lparr>snippets :=
          map (\<lambda>s. if id_of s = i then
                 s\<lparr>status := (case o2 of Inr a \<Rightarrow> Success | Inl msg \<Rightarrow> Error),
                   audio := (case o2 of Inr a \<Rightarrow> Some a
                      | Inl msg \<Rightarrow> (case o1 of Inr a \<Rightarrow> Some a | Inl msg \<Rightarrow> audio s)),
                   error := (case o2 of Inl msg \<Rightarrow> Some msg
                      | Inr a \<Rightarrow> (case o1 of Inl msg \<Rightarrow> Some msg | Inr a \<Rightarrow> None))\<rparr>
               else s) (snippets (app w))\<rparr>\<rparr>) \<and>
      run [GenerateSnippet t1 i, GenerateSnippet t2 i, Settle t2 sv2, Settle t1 sv1] w =
        Some (w\<lparr>app := (app w)\<lparr>snippets :=
          map (\<lambda>s. if id_of s = i then
                 s\<lparr>status := (case o1 of Inr a \<Rightarrow> Success | Inl msg \<Rightarrow> Error),
                   audio := (case o1 of Inr a \<Rightarrow> Some a
                      | Inl msg \<Rightarrow> (case o2 of Inr a \<Rightarrow> Some a | Inl msg \<Rightarrow> audio s)),
                   error := (case o1 of Inl msg \<Rightarrow> Some msg
                      | Inr a \<Rightarrow> (case o2 of Inl msg \<Rightarrow> Some msg | Inr a \<Rightarrow> None))\<rparr>
               else s) (snippets (app w))\<rparr>\<rparr>))"
proof (intro conjI impI)
  assume "find (\<lambda>c. call_token c = tok) (inflight w0) = Some c \<and>
    call_target c = SectionTarget i0"
  then show "settle tok sv w0 =
        Some (w0\<lparr>app := (app w0)\<lparr>snippets :=
               map (\<lambda>s. if id_of s = i0 then
                      (case processGeneration sv (call_text c) (call_voice c) of
                         Inr a \<Rightarrow> s\<lparr>status := Success, audio := Some a\<rparr>
                       | Inl msg \<Rightarrow> s\<lparr>status := Error, error := Some msg\<rparr>)
                    else s) (snippets (app w0))\<rparr>,
             inflight := filter (\<lambda>c. call_token c \<noteq> tok) (inflight w0)\<rparr>)"
    using settle_section_writes by blast
next
  assume a: "find (\<lambda>s. id_of s = i) (snippets (app w)) = Some sn \<and>
    tokenFree t1 w \<and> tokenFree t2 w \<and> t1 \<noteq> t2 \<and>
    processGeneration sv1 (text_of sn) (voice sn) = o1 \<and>
    processGeneration sv2 (text_of sn) (voice sn) = o2"
  then have h: "find (\<lambda>s. id_of s = i) (snippets (app w)) = Some sn"
    "tokenFree t1 w" "tokenFree t2 w" "t1 \<noteq> t2"
    and o: "processGeneration sv1 (text_of sn) (voice sn) = o1"
      "processGeneration sv2 (text_of sn) (voice sn) = o2"
    by simp_all
  from two_calls_settled(1) [OF h, of sv1 sv2]
  show "run [GenerateSnippet t1 i, GenerateSnippet t2 i, Settle t1 sv1, Settle t2 sv2] w =
        Some (w\<lparr>app := (app w)\<lparr>snippets :=
          map (\<lambda>s. if id_of s = i then
                 s\<lparr>status := (case o2 of Inr a \<Rightarrow> Success | Inl msg \<Rightarrow> Error),
                   audio := (case o2 of Inr a \<Rightarrow> Some a
                      | Inl msg \<Rightarrow> (case o1 of Inr a \<Rightarrow> Some a | Inl msg \<Rightarrow> audio s)),
                   error := (case o2 of Inl msg \<Rightarrow> Some msg
                      | Inr a \<Rightarrow> (case o1 of Inl msg \<Rightarrow> Some msg | Inr a \<Rightarrow> None))\<rparr>
               else s) (snippets (app w))\<rparr>\<rparr>)"
    unfolding o two_settled_snippets .
  from two_calls_settled(2) [OF h, of sv2 sv1]
  show "run [GenerateSnippet t1 i, GenerateSnippet t2 i, Settle t2 sv2, Settle t1 sv1] w =
        Some (w\<lparr>app := (app w)\<lparr>snippets :=
          map (\<lambda>s. if id_of s = i then
                 s\<lparr>status := (case o1 of Inr a \<Rightarrow> Success | Inl msg \<Rightarrow> Error),
                   audio := (case o1 of Inr a \<Rightarrow> Some a
                      | Inl msg \<Rightarrow> (case o2 of Inr a \<Rightarrow> Some a | Inl msg \<Rightarrow> audio s)),
                   error := (case o1 of Inl msg \<Rightarrow> Some msg
                      | Inr a \<Rightarrow> (case o2 of Inl msg \<Rightarrow> Some msg | Inr a \<Rightarrow> None))\<rparr>
               else s) (snippets (app w))\<rparr>\<rparr>)"
    unfolding o two_settled_snippets .
qed

theorem last_resolver_wins_witness:
  "find (\<lambda>s. id_of s = ''a'') (snippets (app sampleWorld)) = Some sampleSection \<and>
   tokenFree 1 sampleWorld \<and> tokenFree 2 sampleWorld \<and>
   processGeneration offlineServices (text_of sampleSection) (voice sampleSection) =
     Inl ''quota exceeded'' \<and>
   processGeneration secondServices (text_of sampleSection) (voice sampleSection) =
     Inr secondAudio \<and>
   run [GenerateSnippet 1 ''a'', GenerateSnippet 2 ''a'',
        Settle 1 offlineServices, Settle 2 secondServices] sampleWorld =
     Some \<lparr>app = initialApp\<lparr>snippets :=
              [sampleSection\<lparr>audio := Some secondAudio, status := Success,
                 error := Some ''quota exceeded''\<rparr>]\<rparr>,
           inflight = []\<rparr> \<and>
   run [GenerateSnippet 1 ''a'', GenerateSnippet 2 ''a'',
        Settle 2 secondServices, Settle 1 offlineServices] sampleWorld =
     Some \<lparr>app = initialApp\<lparr>snippets :=
              [sampleSection\<lparr>audio := Some secondAudio, status := Error,
                 error := Some ''quota exceeded''\<rparr>]\<rparr>,
           inflight = []\<rparr> \<and>
   settle 7 offlineServices
     \<lparr>app = initialApp\<lparr>snippets := [sampleSection\<lparr>audio := Some sampleAudio\<rparr>]\<rparr>,
      inflight = [Call 7 (SectionTarget ''a'') ''Enter'' Kore]\<rparr> =
     Some \<lparr>app = initialApp\<lparr>snippets :=
              [sampleSection\<lparr>audio := Some sampleAudio, status := Error,
                 error := Some ''quota exceeded''\<rparr>]\<rparr>,
           inflight = []\<rparr>"
proof -
  let ?w0 = "\<lparr>app = initialApp\<lparr>snippets := [sampleSection\<lparr>audio := Some sampleAudio\<rparr>]\<rparr>,
      inflight = [Call 7 (SectionTarget ''a'') ''Enter'' Kore]\<rparr>"
  let ?c = "Call 7 (SectionTarget ''a'') ''Enter'' Kore"
  have f: "find (\<lambda>s. id_of s = ''a'') (snippets (app sampleWorld)) = Some sampleSection"
    by (simp add: sampleWorld_def sampleSection_def)
  have a: "tokenFree 1 sampleWorld" and b: "tokenFree 2 sampleWorld"
    by (simp_all add: tokenFree_def sampleWorld_def)
  have ne: "(1::nat) \<noteq> 2"
    by simp
  have p1: "processGeneration offlineServices (text_of sampleSection) (voice sampleSection) =
     Inl ''quota exceeded''"
    by code_simp
  have p2: "processGeneration secondServices (text_of sampleSection) (voice sampleSection) =
     Inr secondAudio"
    by code_simp
  have p0: "processGeneration offlineServices (call_text ?c) (call_voice ?c) =
     Inl ''quota exceeded''"
    by code_simp
  have g: "find (\<lambda>c. call_token c = 7) (inflight ?w0) = Some ?c \<and>
      call_target ?c = SectionTarget ''a''"
    by simp
  note T = last_resolver_wins [of 7 ?w0 ?c "''a''" offlineServices "''a''" sampleWorld
      sampleSection 1 2 offlineServices "Inl ''quota exceeded''" secondServices "Inr secondAudio"]
  from T g have s0: "settle 7 offlineServices ?w0 =
        Some (?w0\<lparr>app := (app ?w0)\<lparr>snippets :=
               map (\<lambda>s. if id_of s = ''a'' then
                      (case processGeneration offlineServices (call_text ?c) (call_voice ?c) of
                         Inr a \<Rightarrow> s\<lparr>status := Success, audio := Some a\<rparr>
                       | Inl msg \<Rightarrow> s\<lparr>status := Error, error := Some msg\<rparr>)
                    else s) (snippets (app ?w0))\<rparr>,
             inflight := filter (\<lambda>c. call_token c \<noteq> 7) (inflight ?w0)\<rparr>)"
    by blast
  have s0': "settle 7 offlineServices ?w0 =
     Some \<lparr>app = initialApp\<lparr>snippets :=
              [sampleSection\<lparr>audio := Some sampleAudio, status := Error,
                 error := Some ''quota exceeded''\<rparr>]\<rparr>,
           inflight = []\<rparr>"
    unfolding s0 p0 by (simp add: sampleSection_def)
  from T f a b ne p1 p2
  have r1: "run [GenerateSnippet 1 ''a'', GenerateSnippet 2 ''a'',
        Settle 1 offlineServices, Settle 2 secondServices] sampleWorld =
        Some (sampleWorld\<lparr>app := (app sampleWorld)\<lparr>snippets :=
          map (\<lambda>s. if id_of s = ''a'' then
                 s\<lparr>status := Success, audio := Some secondAudio,
                   error := Some ''quota exceeded''\<rparr>
               else s) (snippets (app sampleWorld))\<rparr>\<rparr>)"
    and r2: "run [GenerateSnippet 1 ''a'', GenerateSnippet 2 ''a'',
        Settle 2 secondServices, Settle 1 offlineServices] sampleWorld =
        Some (sampleWorld\<lparr>app := (app sampleWorld)\<lparr>snippets :=
          map (\<lambda>s. if id_of s = ''a'' then
                 s\<lparr>status := Error, audio := Some secondAudio,
                   error := Some ''quota exceeded''\<rparr>
               else s) (snippets (app sampleWorld))\<rparr>\<rparr>)"
    by simp_all
  have r1': "run [GenerateSnippet 1 ''a'', GenerateSnippet 2 ''a'',
        Settle 1 offlineServices, Settle 2 secondServices] sampleWorld =
     Some \<lparr>app = initialApp\<lparr>snippets :=
              [sampleSection\<lparr>audio := Some secondAudio, status := Success,
                 error := Some ''quota exceeded''\<rparr>]\<rparr>,
           inflight = []\<rparr>"
    unfolding r1 by (simp add: sampleWorld_def sampleSection_def)
  have r2': "run [GenerateSnippet 1 ''a'', GenerateSnippet 2 ''a'',
        Settle 2 secondServices, Settle 1 offlineServices] sampleWorld =
     Some \<lparr>app = initialApp\<lparr>snippets :=
              [sampleSection\<lparr>audio := Some secondAudio, status := Error,
                 error := Some ''quota exceeded''\<rparr>]\<rparr>,
           inflight = []\<rparr>"
    unfolding r2 by (simp add: sampleWorld_def sampleSection_def)
  from f a b p1 p2 r1' r2' s0' show ?thesis
    by blast
qed

text \<open>
  The final state is not the one the call that settled last produces by itself. The first
  call is rejected and then the second is fulfilled: the section ends with the status
  success, the second artifact and the message of the first call, where the second call
  alone ends with no message. The second call is fulfilled and then the first is rejected:
  the section ends with the status error, the message and the artifact of the second call,
  where the first call alone ends with no artifact.
\<close>

theorem last_resolver_state_counterexample:
  "run [GenerateSnippet 1 ''a'', GenerateSnippet 2 ''a'',
        Settle 1 offlineServices, Settle 2 secondServices] sampleWorld =
     Some \<lparr>app = initialApp\<lparr>snippets :=
              [sampleSection\<lparr>audio := Some secondAudio, status := Success,
                 error := Some ''quota exceeded''\<rparr>]\<rparr>,
           inflight = []\<rparr> \<and>
   run [GenerateSnippet 2 ''a'', Settle 2 secondServices] sampleWorld =
     Some \<lparr>app = initialApp\<lparr>snippets :=
              [sampleSection\<lparr>audio := Some secondAudio, status := Success,
                 error := None\<rparr>]\<rparr>,
           inflight = []\<rparr> \<and>
   run [GenerateSnippet 1 ''a'', GenerateSnippet 2 ''a'',
        Settle 1 offlineServices, Settle 2 secondServices] sampleWorld \<noteq>
   run [GenerateSnippet 2 ''a'', Settle 2 secondServices] sampleWorld \<and>
   run [GenerateSnippet 1 ''a'', GenerateSnippet 2 ''a'',
        Settle 2 secondServices, Settle 1 offlineServices] sampleWorld =
     Some \<lparr>app = initialApp\<lparr>snippets :=
              [sampleSection\<lparr>audio := Some secondAudio, status := Error,
                 error := Some ''quota exceeded''\<rparr>]\<rparr>,
           inflight = []\<rparr> \<and>
   run [GenerateSnippet 1 ''a'', Settle 1 offlineServices] sampleWorld =
     Some \<lparr>app = initialApp\<lparr>snippets :=
              [sampleSection\<lparr>audio := None, status := Error,
                 error := Some ''quota exceeded''\<rparr>]\<rparr>,
           inflight = []\<rparr> \<and>
   run [GenerateSnippet 1 ''a'', GenerateSnippet 2 ''a'',
        Settle 2 secondServices, Settle 1 offlineServices] sampleWorld \<noteq>
   run [GenerateSnippet 1 ''a'', Settle 1 offlineServices] sampleWorld"
  by code_simp

section \<open>Properties of the export\<close>

lemma processSubsections_grows:
  "\<exists>grown. fst (processSubsections an fnm sec i j subs (md, files)) = md @ grown"
proof (induction subs arbitrary: j md files)
  case Nil
  show ?case by simp
next
  case (Cons sub subs)
  let ?files = "case audio sub of None \<Rightarrow> files
        | Some a \<Rightarrow> putFile (generateFileName [Some an, Some fnm, Some sec, Some (name sub)] @ ''.wav'')
              (blob a) files"
  from Cons.IH [of "j + 1" "md @ subsectionLine i j sub" ?files]
  obtain grown where
    "fst (processSubsections an fnm sec i (j + 1) subs (md @ subsectionLine i j sub, ?files)) =
     (md @ subsectionLine i j sub) @ grown"
    by blast
  then show ?case by simp
qed

lemma processSubsections_lists:
  "k < length subs \<Longrightarrow>
   sublist (subsectionLine i (j + k) (subs ! k))
     (fst (processSubsections an fnm sec i j subs (md, files)))"
proof (induction subs arbitrary: j k md files)
  case Nil
  then show ?case by simp
next
  case (Cons sub subs)
  let ?files = "case audio sub of None \<Rightarrow> files
        | Some a \<Rightarrow> putFile (generateFileName [Some an, Some fnm, Some sec, Some (name sub)] @ ''.wav'')
              (blob a) files"
  show ?case
  proof (cases k)
    case 0
    from processSubsections_grows [of an fnm sec i "j + 1" subs "md @ subsectionLine i j sub" ?files]
    obtain grown where
      "fst (processSubsections an fnm sec i (j + 1) subs (md @ subsectionLine i j sub, ?files)) =
       md @ subsectionLine i j sub @ grown"
      by auto
    with 0 show ?thesis by (simp add: sublist_appendI)
  next
    case (Suc k')
    with Cons.prems have "k' < length subs" by simp
    from Cons.IH [OF this, of "j + 1" "md @ subsectionLine i j sub" ?files] Suc
    show ?thesis by simp
  qed
qed

lemma processSubsections_files:
  "list_all (\<lambda>sub. audio sub = None) subs \<Longrightarrow>
   snd (processSubsections an fnm sec i j subs (md, files)) = files"
  by (induction subs arbitrary: j md) simp_all

lemma sublist_grow: "sublist xs ys \<Longrightarrow> sublist xs (ys @ zs)"
  unfolding sublist_def by (metis append.assoc)

lemma processSnippets_grows:
  "\<exists>grown. fst (processSnippets an fnm i sns (md, files)) = md @ grown"
proof (induction sns arbitrary: i md files)
  case Nil
  show ?case by simp
next
  case (Cons sn sns)
  let ?ws = "(md @ sectionLine i sn,
             case audio sn of None \<Rightarrow> files
             | Some a \<Rightarrow> putFile (generateFileName [Some an, Some fnm, Some (name sn)] @ ''.wav'')
                   (blob a) files)"
  let ?sub = "processSubsections an fnm (name sn) i 0 (subsections sn) ?ws"
  obtain m1 where m1: "fst ?sub = (md @ sectionLine i sn) @ m1"
    using processSubsections_grows [of an fnm "name sn" i 0 "subsections sn"
        "md @ sectionLine i sn" "snd ?ws"]
    by auto
  obtain m2 where "fst (processSnippets an fnm (i + 1) sns (fst ?sub @ [CHR 0x0A], snd ?sub)) =
      (fst ?sub @ [CHR 0x0A]) @ m2"
    using Cons.IH by blast
  then have "fst (processSnippets an fnm i (sn # sns) (md, files)) =
      md @ (sectionLine i sn @ m1 @ [CHR 0x0A] @ m2)"
    by (simp add: Let_def m1)
  then show ?case by blast
qed

lemma processSnippets_lists:
  "k < length sns \<Longrightarrow>
   sublist (sectionLine (i + k) (sns ! k)) (fst (processSnippets an fnm i sns (md, files))) \<and>
   (\<forall>j < length (subsections (sns ! k)).
      sublist (subsectionLine (i + k) j (subsections (sns ! k) ! j))
        (fst (processSnippets an fnm i sns (md, files))))"
proof (induction sns arbitrary: i k md files)
  case Nil
  then show ?case by simp
next
  case (Cons sn sns)
  let ?ws = "(md @ sectionLine i sn,
             case audio sn of None \<Rightarrow> files
             | Some a \<Rightarrow> putFile (generateFileName [Some an, Some fnm, Some (name sn)] @ ''.wav'')
                   (blob a) files)"
  let ?sub = "processSubsections an fnm (name sn) i 0 (subsections sn) ?ws"
  let ?res = "fst (processSnippets an fnm i (sn # sns) (md, files))"
  have res: "?res = fst (processSnippets an fnm (i + 1) sns (fst ?sub @ [CHR 0x0A], snd ?sub))"
    by (simp add: Let_def)
  show ?case
  proof (cases k)
    case 0
    obtain m1 where m1: "fst ?sub = (md @ sectionLine i sn) @ m1"
      using processSubsections_grows [of an fnm "name sn" i 0 "subsections sn"
          "md @ sectionLine i sn" "snd ?ws"]
      by auto
    obtain m2 where m2: "?res = (fst ?sub @ [CHR 0x0A]) @ m2"
      unfolding res using processSnippets_grows by blast
    have a: "sublist (sectionLine i sn) ?res"
      unfolding m2 m1 by (simp add: sublist_appendI)
    have b: "sublist (subsectionLine i j (subsections sn ! j)) ?res"
      if "j < length (subsections sn)" for j
    proof -
      from processSubsections_lists [OF that, of i 0 an fnm "name sn" "md @ sectionLine i sn" "snd ?ws"]
      have "sublist (subsectionLine i j (subsections sn ! j)) (fst ?sub)"
        by simp
      then have "sublist (subsectionLine i j (subsections sn ! j)) (fst ?sub @ ([CHR 0x0A] @ m2))"
        by (rule sublist_grow)
      then show ?thesis
        unfolding m2 by simp
    qed
    from a b 0 show ?thesis by simp
  next
    case (Suc k')
    with Cons.prems have "k' < length sns" by simp
    from Cons.IH [OF this, of "i + 1" "fst ?sub @ [CHR 0x0A]" "snd ?sub"] Suc
    show ?thesis
      unfolding res by simp
  qed
qed

lemma processSnippets_files:
  "noArtifacts sns \<Longrightarrow> snd (processSnippets an fnm i sns (md, files)) = files"
proof (induction sns arbitrary: i md)
  case Nil
  show ?case by simp
next
  case (Cons sn sns)
  then have a: "audio sn = None" and b: "list_all (\<lambda>sub. audio sub = None) (subsections sn)"
    and c: "noArtifacts sns"
    by (simp_all add: noArtifacts_def)
  from a processSubsections_files [OF b, of an fnm "name sn" i 0 "md @ sectionLine i sn" files]
  have "snd (processSubsections an fnm (name sn) i 0 (subsections sn)
            (md @ sectionLine i sn,
             case audio sn of None \<Rightarrow> files
             | Some a \<Rightarrow> putFile (generateFileName [Some an, Some fnm, Some (name sn)] @ ''.wav'')
                   (blob a) files)) = files"
    by simp
  with Cons.IH [OF c] show ?case
    by (simp add: Let_def)
qed

lemma manifest_nonempty: "manifest an fnm now sns \<noteq> []"
proof -
  obtain grown where "manifest an fnm now sns = manifestHeader an fnm now @ grown"
    unfolding manifest_def using processSnippets_grows by blast
  then show ?thesis by (simp add: manifestHeader_def)
qed

lemma handleDownloadAll_empty_iff:
  "handleDownloadAll jszip now an fnm sns = NothingToDownload \<longleftrightarrow> sns = []"
  by (simp add: handleDownloadAll_def Let_def split: sum.splits)

lemma processSubsections_text:
  "fst (processSubsections an fnm sec i j subs (md, files)) =
   md @ concat (map (\<lambda>(j, sub). subsectionLine i j sub) (enumerate j subs))"
proof (induction subs arbitrary: j md files)
  case Nil
  show ?case by simp
next
  case (Cons sub subs)
  show ?case
    by (simp add: Cons.IH)
qed

lemma processSnippets_text:
  "fst (processSnippets an fnm i sns (md, files)) =
   md @ concat (map (\<lambda>(i, s). sectionLine i s @
        concat (map (\<lambda>(j, sub). subsectionLine i j sub) (enumerate 0 (subsections s))) @
        [CHR 0x0A]) (enumerate i sns))"
proof (induction sns arbitrary: i md files)
  case Nil
  show ?case by simp
next
  case (Cons sn sns)
  show ?case
    by (simp add: Let_def Cons.IH processSubsections_text)
qed

lemma manifest_text:
  "manifest an fnm now sns =
   ''# '' @ an @ '' - '' @ fnm @ [CHR 0x0A, CHR 0x0A] @
   ''Generated: '' @ now @ [CHR 0x0A, CHR 0x0A] @ ''## Structure'' @ [CHR 0x0A, CHR 0x0A] @
   concat (map (\<lambda>(i, s).
       (toString (i + 1) @ ''. '' @ name s @ '' ('' @ voiceString (voice s) @ '')'' @ [CHR 0x0A]) @
       concat (map (\<lambda>(j, sub).
           ''   '' @ toString (i + 1) @ ''.'' @ toString (j + 1) @ ''. '' @ name sub @
           '' ('' @ voiceString (voice sub) @ '')'' @ [CHR 0x0A])
         (enumerate 0 (subsections s))) @
       [CHR 0x0A]) (enumerate 0 sns))"
  unfolding manifest_def processSnippets_text manifestHeader_def sectionLine_def
    subsectionLine_def
  by simp

lemma putFile_member: "(n, d) \<in> set (putFile n d fs)"
  by (induction fs) auto

lemma handleDownloadAll_downloads:
  "sns \<noteq> [] \<Longrightarrow> zip_folder jszip (generateFileName [Some an, Some fnm]) \<Longrightarrow>
   zip_generateAsync jszip (generateFileName [Some an, Some fnm]) (folderMembers an fnm now sns)
     = Inr content \<Longrightarrow>
   handleDownloadAll jszip now an fnm sns =
     Downloaded (generateFileName [Some an, Some fnm] @ ''.zip'') content"
  by (simp add: handleDownloadAll_def Let_def)

text \<open>
  C6. The export returns without doing anything exactly when there is no section. With at
  least one section, whether or not nodes hold artifacts, it ends in the download of the
  archive whenever the archive library makes the folder and the blob, and the outline
  \<^verbatim>\<open>structure.md\<close> is a member of the folder. With no artifact anywhere the outline is
  the only member, so there is no audio member. The outline is never empty: it is the title
  line with the two names, the line of the generation time, the heading, and then for every
  section in order its line \<open>n. name (voice)\<close>, the lines \<open>n.m. name (voice)\<close> of its
  subsections behind three spaces, and an empty line; so every section and every subsection
  is listed with its number, its name and its voice, with or without an artifact.
\<close>

theorem download_without_artifacts:
  "(handleDownloadAll jszip now an fnm sns = NothingToDownload \<longleftrightarrow> sns = []) \<and>
   (sns \<noteq> [] \<longrightarrow>
      (\<forall>content.
         zip_folder jszip (generateFileName [Some an, Some fnm]) \<and>
         zip_generateAsync jszip (generateFileName [Some an, Some fnm])
           (folderMembers an fnm now sns) = Inr content \<longrightarrow>
         handleDownloadAll jszip now an fnm sns =
           Downloaded (generateFileName [Some an, Some fnm] @ ''.zip'') content) \<and>
      (''structure.md'', manifest an fnm now sns) \<in> set (folderMembers an fnm now sns)) \<and>
   (noArtifacts sns \<longrightarrow>
      folderMembers an fnm now sns = [(''structure.md'', manifest an fnm now sns)]) \<and>
   manifest an fnm now sns \<noteq> [] \<and>
   manifest an fnm now sns =
     ''# '' @ an @ '' - '' @ fnm @ [CHR 0x0A, CHR 0x0A] @
     ''Generated: '' @ now @ [CHR 0x0A, CHR 0x0A] @ ''## Structure'' @ [CHR 0x0A, CHR 0x0A] @
     concat (map (\<lambda>(i, s).
         (toString (i + 1) @ ''. '' @ name s @ '' ('' @ voiceString (voice s) @ '')'' @
          [CHR 0x0A]) @
         concat (map (\<lambda>(j, sub).
             ''   '' @ toString (i + 1) @ ''.'' @ toString (j + 1) @ ''. '' @ name sub @
             '' ('' @ voiceString (voice sub) @ '')'' @ [CHR 0x0A])
           (enumerate 0 (subsections s))) @
         [CHR 0x0A]) (enumerate 0 sns)) \<and>
   (\<forall>i < length sns.
      sublist (toString (i + 1) @ ''. '' @ name (sns ! i) @ '' ('' @
               voiceString (voice (sns ! i)) @ '')'' @ [CHR 0x0A])
        (manifest an fnm now sns) \<and>
      (\<forall>j < length (subsections (sns ! i)).
         sublist (''   '' @ toString (i + 1) @ ''.'' @ toString (j + 1) @ ''. '' @
                  name (subsections (sns ! i) ! j) @ '' ('' @
                  voiceString (voice (subsections (sns ! i) ! j)) @ '')'' @ [CHR 0x0A])
           (manifest an fnm now sns)))"
proof -
  have lines: "\<forall>i < length sns.
      sublist (toString (i + 1) @ ''. '' @ name (sns ! i) @ '' ('' @
               voiceString (voice (sns ! i)) @ '')'' @ [CHR 0x0A])
        (manifest an fnm now sns) \<and>
      (\<forall>j < length (subsections (sns ! i)).
         sublist (''   '' @ toString (i + 1) @ ''.'' @ toString (j + 1) @ ''. '' @
                  name (subsections (sns ! i) ! j) @ '' ('' @
                  voiceString (voice (subsections (sns ! i) ! j)) @ '')'' @ [CHR 0x0A])
           (manifest an fnm now sns))"
  proof (intro allI impI)
    fix i
    assume "i < length sns"
    from processSnippets_lists [OF this, of 0 an fnm "manifestHeader an fnm now" "[]"]
    show "sublist (toString (i + 1) @ ''. '' @ name (sns ! i) @ '' ('' @
               voiceString (voice (sns ! i)) @ '')'' @ [CHR 0x0A])
        (manifest an fnm now sns) \<and>
      (\<forall>j < length (subsections (sns ! i)).
         sublist (''   '' @ toString (i + 1) @ ''.'' @ toString (j + 1) @ ''. '' @
                  name (subsections (sns ! i) ! j) @ '' ('' @
                  voiceString (voice (subsections (sns ! i) ! j)) @ '')'' @ [CHR 0x0A])
           (manifest an fnm now sns))"
      by (simp add: manifest_def sectionLine_def subsectionLine_def)
  qed
  have members: "folderMembers an fnm now sns = [(''structure.md'', manifest an fnm now sns)]"
    if "noArtifacts sns"
    using that by (simp add: folderMembers_def processSnippets_files)
  have outline: "(''structure.md'', manifest an fnm now sns) \<in> set (folderMembers an fnm now sns)"
    unfolding folderMembers_def by (rule putFile_member)
  from handleDownloadAll_empty_iff [of jszip now an fnm sns] lines members outline
    handleDownloadAll_downloads [of sns jszip an fnm now]
    manifest_nonempty [of an fnm now sns] manifest_text [of an fnm now sns]
  show ?thesis
    by blast
qed

theorem download_without_artifacts_witness:
  "sampleTree \<noteq> [] \<and> noArtifacts sampleTree \<and>
   handleDownloadAll workingZip ''11/2/2026, 10:00:00 AM'' ''MyApp'' ''Tutorial'' sampleTree =
     Downloaded ''MyApp-Tutorial.zip'' ''PK'' \<and>
   folderMembers ''MyApp'' ''Tutorial'' ''11/2/2026, 10:00:00 AM'' sampleTree =
     [(''structure.md'', manifest ''MyApp'' ''Tutorial'' ''11/2/2026, 10:00:00 AM'' sampleTree)] \<and>
   manifest ''MyApp'' ''Tutorial'' ''11/2/2026, 10:00:00 AM'' sampleTree =
     ''# MyApp - Tutorial'' @ [CHR 0x0A, CHR 0x0A] @
     ''Generated: 11/2/2026, 10:00:00 AM'' @ [CHR 0x0A, CHR 0x0A] @
     ''## Structure'' @ [CHR 0x0A, CHR 0x0A] @
     ''1. Section 1 (Kore)'' @ [CHR 0x0A] @
     ''   1.1. Part 1 (Puck)'' @ [CHR 0x0A] @ [CHR 0x0A] \<and>
   sublist (''1. Section 1 (Kore)'' @ [CHR 0x0A])
     (manifest ''MyApp'' ''Tutorial'' ''11/2/2026, 10:00:00 AM'' sampleTree) \<and>
   sublist (''   1.1. Part 1 (Puck)'' @ [CHR 0x0A])
     (manifest ''MyApp'' ''Tutorial'' ''11/2/2026, 10:00:00 AM'' sampleTree) \<and>
   handleDownloadAll workingZip ''11/2/2026, 10:00:00 AM'' ''MyApp'' ''Tutorial''
       [sampleSection\<lparr>audio := Some sampleAudio\<rparr>] =
     Downloaded ''MyApp-Tutorial.zip'' ''PK'' \<and>
   handleDownloadAll workingZip ''11/2/2026, 10:00:00 AM'' ''MyApp'' ''Tutorial'' [] =
     NothingToDownload"
proof -
  let ?now = "''11/2/2026, 10:00:00 AM''"
  let ?m = "manifest ''MyApp'' ''Tutorial'' ?now sampleTree"
  let ?withAudio = "[sampleSection\<lparr>audio := Some sampleAudio\<rparr>]"
  note T = download_without_artifacts [of workingZip ?now "''MyApp''" "''Tutorial''"]
  have ne: "sampleTree \<noteq> []" by (simp add: sampleTree_def)
  have ne2: "?withAudio \<noteq> []" by simp
  have na: "noArtifacts sampleTree" by code_simp
  have z: "zip_folder workingZip (generateFileName [Some ''MyApp'', Some ''Tutorial''])"
    by (simp add: workingZip_def)
  have g: "zip_generateAsync workingZip (generateFileName [Some ''MyApp'', Some ''Tutorial''])
           members = Inr ''PK''" for members
    by (simp add: workingZip_def)
  have n: "generateFileName [Some ''MyApp'', Some ''Tutorial''] @ ''.zip'' = ''MyApp-Tutorial.zip''"
    by code_simp
  have l0: "toString (0 + 1) @ ''. '' @ name (sampleTree ! 0) @ '' ('' @
               voiceString (voice (sampleTree ! 0)) @ '')'' @ [CHR 0x0A] =
            ''1. Section 1 (Kore)'' @ [CHR 0x0A]"
    by code_simp
  have l1: "''   '' @ toString (0 + 1) @ ''.'' @ toString (0 + 1) @ ''. '' @
                  name (subsections (sampleTree ! 0) ! 0) @ '' ('' @
                  voiceString (voice (subsections (sampleTree ! 0) ! 0)) @ '')'' @ [CHR 0x0A] =
            ''   1.1. Part 1 (Puck)'' @ [CHR 0x0A]"
    by code_simp
  have len: "0 < length sampleTree" "0 < length (subsections (sampleTree ! 0))"
    by (simp_all add: sampleTree_def)
  from T [of sampleTree] ne na
  have mem: "folderMembers ''MyApp'' ''Tutorial'' ?now sampleTree = [(''structure.md'', ?m)]"
    by blast
  from T [of sampleTree] ne z g
  have d: "handleDownloadAll workingZip ?now ''MyApp'' ''Tutorial'' sampleTree =
      Downloaded (generateFileName [Some ''MyApp'', Some ''Tutorial''] @ ''.zip'') ''PK''"
    by blast
  from T [of ?withAudio] ne2 z g
  have d2: "handleDownloadAll workingZip ?now ''MyApp'' ''Tutorial'' ?withAudio =
      Downloaded (generateFileName [Some ''MyApp'', Some ''Tutorial''] @ ''.zip'') ''PK''"
    by blast
  from T [of sampleTree] len
  have a0: "sublist (toString (0 + 1) @ ''. '' @ name (sampleTree ! 0) @ '' ('' @
               voiceString (voice (sampleTree ! 0)) @ '')'' @ [CHR 0x0A]) ?m"
    by blast
  from T [of sampleTree] len
  have a1: "sublist (''   '' @ toString (0 + 1) @ ''.'' @ toString (0 + 1) @ ''. '' @
                  name (subsections (sampleTree ! 0) ! 0) @ '' ('' @
                  voiceString (voice (subsections (sampleTree ! 0) ! 0)) @ '')'' @ [CHR 0x0A]) ?m"
    by blast
  have s0: "sublist (''1. Section 1 (Kore)'' @ [CHR 0x0A]) ?m"
    using a0 unfolding l0 .
  have s1: "sublist (''   1.1. Part 1 (Puck)'' @ [CHR 0x0A]) ?m"
    using a1 unfolding l1 .
  have mt: "?m = ''# MyApp - Tutorial'' @ [CHR 0x0A, CHR 0x0A] @
     ''Generated: 11/2/2026, 10:00:00 AM'' @ [CHR 0x0A, CHR 0x0A] @
     ''## Structure'' @ [CHR 0x0A, CHR 0x0A] @
     ''1. Section 1 (Kore)'' @ [CHR 0x0A] @
     ''   1.1. Part 1 (Puck)'' @ [CHR 0x0A] @ [CHR 0x0A]"
    by code_simp
  from T [of "[]"] have e: "handleDownloadAll workingZip ?now ''MyApp'' ''Tutorial'' [] =
     NothingToDownload"
    by blast
  from ne na d d2 mem s0 s1 e mt show ?thesis
    unfolding n by blast
qed

end
